theory Spec2Isabelle
  imports Complex_Main
begin

section \<open>Delay analytics views of the order tracker\<close>

text \<open>
  A shallow embedding of \<^verbatim>\<open>tracker/views_delay_analytics.py\<close>. The views read the order
  tables through Django querysets; a queryset is modelled as the list of its rows, a
  \<^verbatim>\<open>filter\<close> call as a list filter, \<^verbatim>\<open>count()\<close> as the length and
  \<^verbatim>\<open>distinct()\<close> as the removal of duplicate rows.

  Conventions of the model:
  \<^item> a timestamp is an integer number of microseconds (the resolution of Python's
    \<^verbatim>\<open>datetime\<close>), in the active time zone;
  \<^item> a Python float is the rational number it denotes, and every float operation rounds
    its exact result to 53 significant bits, ties to even, as binary64 arithmetic does;
    the range of the exponent is not bounded, since no count or duration of the tables
    comes near an overflow or a subnormal number;
  \<^item> the request parameters are the strings of the query; the \<^verbatim>\<open>user\<close> string is
    converted to an integer when the filter on the reporter's id is built, and the view
    raises \<^verbatim>\<open>ValueError\<close> where the conversion does;
  \<^item> the models, \<^verbatim>\<open>CATEGORY_CHOICES\<close>, \<^verbatim>\<open>get_user_branch\<close> and the conversion of an
    id lookup value are not part of the module: the tables are the fields of a
    \<open>database\<close> record, the choices table and the conversion two more of its fields,
    and the caller's branch an argument.
\<close>

subsection \<open>Tables\<close>

type_synonym timestamp = int

record order =
  order_id :: int
  branch :: "int option"
  order_type :: string
  status :: string
  customer :: "int option"
  started_at :: "timestamp option"
  completed_at :: "timestamp option"
  created_at :: timestamp
  exceeded_9_hours :: bool
  delay_reason :: "int option"
  delay_reason_reported_by :: "int option"
  delay_reason_reported_at :: "timestamp option"

record delay_reason_row =
  reason_id :: int
  reason_text :: string
  reason_category :: "int option"

record delay_reason_category =
  category_id :: int
  category_code :: string
  is_active :: bool

record invoice =
  invoice_order :: int
  total_amount :: "rat option"

text \<open>The field \<open>int_of_string\<close> is the conversion the id field applies to a lookup value
  (Python's \<^verbatim>\<open>int\<close> on the string): \<open>None\<close> where it raises \<^verbatim>\<open>ValueError\<close>.\<close>

record database =
  orders :: "order list"
  delay_reasons :: "delay_reason_row list"
  delay_reason_categories :: "delay_reason_category list"
  invoices :: "invoice list"
  CATEGORY_CHOICES :: "(string \<times> string) list"
  int_of_string :: "string \<Rightarrow> int option"

datatype error = ValueError

text \<open>The request parameters read with \<^verbatim>\<open>request.GET.get\<close>; \<open>None\<close> is a missing key.\<close>

record request =
  get_period :: "string option"
  get_category :: "string option"
  get_user :: "string option"
  get_order_type :: "string option"

definition GET_get :: "string option \<Rightarrow> string \<Rightarrow> string" where
  "GET_get v dflt = (case v of None \<Rightarrow> dflt | Some s \<Rightarrow> s)"

subsection \<open>Floats\<close>

definition round_half_even :: "rat \<Rightarrow> int" where
  "round_half_even q =
     (let f = \<lfloor>q\<rfloor>; d = q - of_int f
      in if d < 1 / 2 then f else if 1 / 2 < d then f + 1
         else if even f then f else f + 1)"

definition pow2 :: "int \<Rightarrow> rat" where
  "pow2 e = (if 0 \<le> e then 2 ^ nat e else 1 / 2 ^ nat (- e))"

text \<open>The binary exponent of a positive number: \<open>log2_floor q\<close> is the \<open>e\<close> with
  \<open>2 ^ e \<le> q < 2 ^ (e + 1)\<close>, counted up from 1 or down from 1.\<close>

function log2_up :: "rat \<Rightarrow> int" where
  "log2_up q = (if q < 2 then 0 else 1 + log2_up (q / 2))"
  by pat_completeness auto
termination
proof (relation "measure (\<lambda>q. nat \<lfloor>q\<rfloor>)")
  show "wf (measure (\<lambda>q::rat. nat \<lfloor>q\<rfloor>))" by simp
next
  fix q :: rat
  assume "\<not> q < 2"
  then have "2 \<le> q" by simp
  then have "\<lfloor>q / 2\<rfloor> < \<lfloor>q\<rfloor>" by linarith
  moreover have "0 < \<lfloor>q\<rfloor>" using \<open>2 \<le> q\<close> by linarith
  ultimately show "(q / 2, q) \<in> measure (\<lambda>q. nat \<lfloor>q\<rfloor>)" by simp
qed

function log2_down :: "rat \<Rightarrow> int" where
  "log2_down q = (if q \<le> 0 \<or> 1 \<le> q then 0 else log2_down (q * 2) - 1)"
  by pat_completeness auto
termination
proof (relation "measure (\<lambda>q. nat \<lfloor>1 / q\<rfloor>)")
  show "wf (measure (\<lambda>q::rat. nat \<lfloor>1 / q\<rfloor>))" by simp
next
  fix q :: rat
  assume "\<not> (q \<le> 0 \<or> 1 \<le> q)"
  then have q: "0 < q" "q < 1" by simp_all
  have floor_half_less: "\<lfloor>x / 2\<rfloor> < \<lfloor>x\<rfloor>" if "1 < x" for x :: rat
  proof -
    from that have "1 \<le> \<lfloor>x\<rfloor>" by (simp add: le_floor_iff)
    then have one: "(1::rat) \<le> of_int \<lfloor>x\<rfloor>" by (simp only: of_int_1_le_iff)
    have "x < of_int \<lfloor>x\<rfloor> + 1" by linarith
    with one have "x / 2 < of_int \<lfloor>x\<rfloor>" by linarith
    then show ?thesis by (simp only: floor_less_iff)
  qed
  have "1 < 1 / q" using q by simp
  then have "\<lfloor>1 / q / 2\<rfloor> < \<lfloor>1 / q\<rfloor>" by (rule floor_half_less)
  moreover have "1 / (q * 2) = 1 / q / 2" by simp
  ultimately have "\<lfloor>1 / (q * 2)\<rfloor> < \<lfloor>1 / q\<rfloor>" by (simp only:)
  moreover have "0 < \<lfloor>1 / q\<rfloor>" using \<open>1 < 1 / q\<close> by (simp add: less_floor_iff)
  ultimately have "nat \<lfloor>1 / (q * 2)\<rfloor> < nat \<lfloor>1 / q\<rfloor>" by linarith
  then show "(q * 2, q) \<in> measure (\<lambda>q. nat \<lfloor>1 / q\<rfloor>)"
    by (simp only: in_measure)
qed

declare log2_up.simps [simp del] log2_down.simps [simp del]

definition log2_floor :: "rat \<Rightarrow> int" where
  "log2_floor q = (if 1 \<le> q then log2_up q else log2_down q)"

text \<open>Rounding to the nearest float: the multiple of the unit in the last of 53 bits
  that is nearest, the even one of two that are equally near.\<close>

definition float_round :: "rat \<Rightarrow> rat" where
  "float_round q =
     (if q = 0 then 0
      else let ulp = pow2 (log2_floor \<bar>q\<bar> - 52)
           in sgn q * of_int (round_half_even (\<bar>q\<bar> / ulp)) * ulp)"

text \<open>\<^verbatim>\<open>a / b\<close>, \<^verbatim>\<open>a * b\<close>, \<^verbatim>\<open>a + b\<close> and \<^verbatim>\<open>a - b\<close> on floats, and \<^verbatim>\<open>a / b\<close> on two
  integers, which Python rounds once; an integer operand of a float operation is
  converted with \<open>float_round\<close> by the caller where it can exceed 53 bits.\<close>

definition float_truediv :: "rat \<Rightarrow> rat \<Rightarrow> rat" where
  "float_truediv a b = float_round (a / b)"

definition float_mul :: "rat \<Rightarrow> rat \<Rightarrow> rat" where
  "float_mul a b = float_round (a * b)"

definition float_add :: "rat \<Rightarrow> rat \<Rightarrow> rat" where
  "float_add a b = float_round (a + b)"

definition float_sub :: "rat \<Rightarrow> rat \<Rightarrow> rat" where
  "float_sub a b = float_round (a - b)"

text \<open>\<^verbatim>\<open>round(q, n)\<close>: the exact value of the float is rounded to \<open>n\<close> decimals, halves
  to the even neighbour, and the result is the float nearest to that decimal.\<close>

definition py_round :: "rat \<Rightarrow> nat \<Rightarrow> rat" where
  "py_round q n = float_round (of_int (round_half_even (q * 10 ^ n)) / 10 ^ n)"

subsection \<open>Text of numbers\<close>

definition digit_chars :: string where
  "digit_chars = ''0123456789''"

fun str_nat :: "nat \<Rightarrow> string" where
  "str_nat n = (if n < 10 then [digit_chars ! n]
                else str_nat (n div 10) @ [digit_chars ! (n mod 10)])"

declare str_nat.simps [simp del]

text \<open>A non-negative float with one digit after the point, as \<^verbatim>\<open>f"{x:.1f}"\<close> prints it,
  and as \<^verbatim>\<open>str\<close> prints the result of \<^verbatim>\<open>round(x, 1)\<close> below \<open>10 ^ 16\<close>.\<close>

definition str_1f :: "rat \<Rightarrow> string" where
  "str_1f q = (let t = nat (round_half_even (q * 10))
               in str_nat (t div 10) @ ''.'' @ str_nat (t mod 10))"

text \<open>What an f-string prints for a value that may be \<^verbatim>\<open>None\<close>.\<close>

definition str_opt :: "string option \<Rightarrow> string" where
  "str_opt v = (case v of None \<Rightarrow> ''None'' | Some s \<Rightarrow> s)"

subsection \<open>Period to start date\<close>

definition timedelta_days :: "int \<Rightarrow> int" where
  "timedelta_days n = n * 86400000000"

text \<open>\<^verbatim>\<open>_get_start_date_from_period\<close>: a dictionary lookup with a default; the key
  \<^verbatim>\<open>all\<close> is present with the value \<^verbatim>\<open>None\<close>.\<close>

definition period_map :: "timestamp \<Rightarrow> (string \<times> timestamp option) list" where
  "period_map now =
     [(''7days'', Some (now - timedelta_days 7)),
      (''30days'', Some (now - timedelta_days 30)),
      (''90days'', Some (now - timedelta_days 90)),
      (''6months'', Some (now - timedelta_days 180)),
      (''1year'', Some (now - timedelta_days 365)),
      (''all'', None)]"

definition get_start_date_from_period :: "timestamp \<Rightarrow> string \<Rightarrow> timestamp option" where
  "get_start_date_from_period now period =
     (case map_of (period_map now) period of
        Some v \<Rightarrow> v
      | None \<Rightarrow> Some (now - timedelta_days 30))"

text \<open>What every view reads from the request before it builds its querysets.\<close>

abbreviation req_start_date :: "timestamp \<Rightarrow> request \<Rightarrow> timestamp option" where
  "req_start_date now req \<equiv> get_start_date_from_period now (GET_get (get_period req) ''30days'')"

abbreviation req_category :: "request \<Rightarrow> string" where
  "req_category req \<equiv> GET_get (get_category req) []"

abbreviation req_user :: "request \<Rightarrow> string" where
  "req_user req \<equiv> GET_get (get_user req) []"

abbreviation req_order_type :: "request \<Rightarrow> string" where
  "req_order_type req \<equiv> GET_get (get_order_type req) []"

text \<open>A \<^verbatim>\<open>user\<close> string that is not empty and that the conversion refuses, and the
  reporter's id a request selects otherwise.\<close>

abbreviation user_rejected :: "database \<Rightarrow> request \<Rightarrow> bool" where
  "user_rejected db req \<equiv> req_user req \<noteq> [] \<and> int_of_string db (req_user req) = None"

abbreviation req_user_id :: "database \<Rightarrow> request \<Rightarrow> int option" where
  "req_user_id db req \<equiv> (if req_user req = [] then None else int_of_string db (req_user req))"

subsection \<open>Category display\<close>

text \<open>\<^verbatim>\<open>_get_category_display\<close>: \<^verbatim>\<open>dict(CATEGORY_CHOICES).get(code, code)\<close>. Building
  the dictionary keeps the last pair of a repeated key.\<close>

definition get_category_display :: "database \<Rightarrow> string \<Rightarrow> string" where
  "get_category_display db code =
     (case map_of (rev (CATEGORY_CHOICES db)) code of
        Some label \<Rightarrow> label
      | None \<Rightarrow> code)"

text \<open>The same function at the call sites whose code may be \<^verbatim>\<open>None\<close> (a reason
  without category): \<^verbatim>\<open>None\<close> is no key of the table, and the default is the argument.\<close>

definition get_category_display_opt :: "database \<Rightarrow> string option \<Rightarrow> string option" where
  "get_category_display_opt db code_opt = map_option (get_category_display db) code_opt"

subsection \<open>Joins and queryset filters\<close>

text \<open>\<^verbatim>\<open>order.delay_reason\<close>, \<^verbatim>\<open>delay_reason.category\<close> and the lookups
  \<^verbatim>\<open>delay_reason__category\<close>, \<^verbatim>\<open>delay_reason__category__category\<close> and
  \<^verbatim>\<open>delay_reason__reason_text\<close>: a foreign key is followed by the row's identifier.\<close>

definition order_reason :: "database \<Rightarrow> order \<Rightarrow> delay_reason_row option" where
  "order_reason db ord =
     (case delay_reason ord of
        None \<Rightarrow> None
      | Some rid \<Rightarrow> find (\<lambda>r. reason_id r = rid) (delay_reasons db))"

definition order_category_id :: "database \<Rightarrow> order \<Rightarrow> int option" where
  "order_category_id db ord =
     (case order_reason db ord of None \<Rightarrow> None | Some r \<Rightarrow> reason_category r)"

definition order_category :: "database \<Rightarrow> order \<Rightarrow> delay_reason_category option" where
  "order_category db ord =
     (case order_category_id db ord of
        None \<Rightarrow> None
      | Some cid \<Rightarrow> find (\<lambda>c. category_id c = cid) (delay_reason_categories db))"

definition order_category_code :: "database \<Rightarrow> order \<Rightarrow> string option" where
  "order_category_code db ord = map_option category_code (order_category db ord)"

definition order_reason_text :: "database \<Rightarrow> order \<Rightarrow> string option" where
  "order_reason_text db ord = map_option reason_text (order_reason db ord)"

text \<open>\<^verbatim>\<open>delay_reason__isnull=False, delay_reason_reported_at__isnull=False\<close>\<close>

definition delayed :: "order \<Rightarrow> bool" where
  "delayed ord = (delay_reason ord \<noteq> None \<and> delay_reason_reported_at ord \<noteq> None)"

text \<open>\<^verbatim>\<open>delay_reason_reported_at__gte=start_date\<close>; a null column satisfies no
  comparison.\<close>

definition reported_gte :: "timestamp \<Rightarrow> order \<Rightarrow> bool" where
  "reported_gte start_date ord =
     (case delay_reason_reported_at ord of None \<Rightarrow> False | Some t \<Rightarrow> start_date \<le> t)"

text \<open>The lookup \<^verbatim>\<open>delay_reason_reported_by__id=selected_user\<close> under
  \<^verbatim>\<open>if selected_user:\<close>. The string is converted when the filter is built, before any
  row is read, and the view ends with \<^verbatim>\<open>ValueError\<close> where the conversion raises.\<close>

definition reported_by_lookup :: "database \<Rightarrow> string \<Rightarrow> error + int option" where
  "reported_by_lookup db selected_user =
     (if selected_user \<noteq> [] then
        (case int_of_string db selected_user of
           None \<Rightarrow> Inl ValueError
         | Some user_id \<Rightarrow> Inr (Some user_id))
      else Inr None)"

text \<open>The conditional filter steps every view repeats:
  \<^verbatim>\<open>if user_branch:\<close>, \<^verbatim>\<open>if start_date:\<close>, \<^verbatim>\<open>if selected_category:\<close>,
  \<^verbatim>\<open>if selected_user:\<close> (with the id the lookup has converted),
  \<^verbatim>\<open>if selected_order_type:\<close>.\<close>

definition filter_branch :: "int option \<Rightarrow> order list \<Rightarrow> order list" where
  "filter_branch user_branch qs =
     (case user_branch of None \<Rightarrow> qs | Some b \<Rightarrow> filter (\<lambda>ord. branch ord = Some b) qs)"

definition filter_reported_since :: "timestamp option \<Rightarrow> order list \<Rightarrow> order list" where
  "filter_reported_since start_date qs =
     (case start_date of None \<Rightarrow> qs | Some s \<Rightarrow> filter (reported_gte s) qs)"

definition filter_category :: "database \<Rightarrow> string \<Rightarrow> order list \<Rightarrow> order list" where
  "filter_category db selected_category qs =
     (if selected_category \<noteq> [] then
        filter (\<lambda>ord. order_category_code db ord = Some selected_category) qs
      else qs)"

definition filter_user :: "int option \<Rightarrow> order list \<Rightarrow> order list" where
  "filter_user user_id qs =
     (case user_id of
        None \<Rightarrow> qs
      | Some u \<Rightarrow> filter (\<lambda>ord. delay_reason_reported_by ord = Some u) qs)"

definition filter_order_type :: "string \<Rightarrow> order list \<Rightarrow> order list" where
  "filter_order_type selected_order_type qs =
     (if selected_order_type \<noteq> [] then
        filter (\<lambda>ord. order_type ord = selected_order_type) qs
      else qs)"

text \<open>The delayed orders of a view under all five filters (the querysets \<^verbatim>\<open>orders_qs\<close>
  of the listing, \<^verbatim>\<open>orders_with_delays\<close> of the summary).\<close>

definition delayed_orders ::
  "database \<Rightarrow> int option \<Rightarrow> timestamp option \<Rightarrow> string \<Rightarrow> int option \<Rightarrow> string \<Rightarrow> order list" where
  "delayed_orders db user_branch start_date selected_category user_id selected_order_type =
     filter_order_type selected_order_type
       (filter_user user_id
         (filter_category db selected_category
           (filter_reported_since start_date
             (filter_branch user_branch (filter delayed (orders db))))))"

text \<open>The delayed orders under the branch and period filters only (the querysets
  \<^verbatim>\<open>orders_qs\<close> of the impact analysis and of the recommendations).\<close>

definition delayed_orders_in_period :: "database \<Rightarrow> int option \<Rightarrow> timestamp option \<Rightarrow> order list" where
  "delayed_orders_in_period db user_branch start_date =
     filter_reported_since start_date (filter_branch user_branch (filter delayed (orders db)))"

text \<open>\<^verbatim>\<open>qs.values(key).annotate(count=Count('id', distinct=True))\<close>: one row per value of
  the key, in the order of first occurrence, and \<^verbatim>\<open>order_by('-count')\<close>. The database
  leaves the order of equal counts open; the model keeps the order of the grouping.\<close>

definition group_count :: "(order \<Rightarrow> 'k) \<Rightarrow> order list \<Rightarrow> ('k \<times> nat) list" where
  "group_count key qs =
     map (\<lambda>k. (k, length (remdups (map order_id (filter (\<lambda>ord. key ord = k) qs)))))
       (remdups (map key qs))"

definition order_by_count_desc :: "('k \<times> nat) list \<Rightarrow> ('k \<times> nat) list" where
  "order_by_count_desc rows = sort_key (\<lambda>row. - int (snd row)) rows"

text \<open>\<^verbatim>\<open>(completed_at - started_at).total_seconds() / 3600\<close>: the microseconds of the
  difference divided by \<open>10 ^ 6\<close>, and the float of the seconds divided by 3600.\<close>

definition hours_between :: "timestamp \<Rightarrow> timestamp \<Rightarrow> rat" where
  "hours_between started completed =
     float_truediv (float_truediv (of_int (completed - started)) 1000000) 3600"

definition duration_hours :: "order \<Rightarrow> rat option" where
  "duration_hours ord =
     (case (started_at ord, completed_at ord) of
        (Some s, Some c) \<Rightarrow> Some (hours_between s c)
      | _ \<Rightarrow> None)"

text \<open>\<^verbatim>\<open>(a / b * 100) if b > 0 else 0\<close> on two counts.\<close>

definition percent_of :: "nat \<Rightarrow> nat \<Rightarrow> rat" where
  "percent_of a b = (if b > 0 then float_mul (float_truediv (of_nat a) (of_nat b)) 100 else 0)"

subsection \<open>Dashboard\<close>

record dashboard_context =
  ctx_time_period :: string
  ctx_selected_category :: string
  ctx_selected_user :: string
  ctx_selected_order_type :: string
  ctx_total_delayed_orders :: nat
  ctx_delay_rate :: rat

text \<open>The denominator queryset of the dashboard: \<^verbatim>\<open>branch=user_branch\<close> is applied
  whether or not the caller has a branch, and an exact lookup of \<^verbatim>\<open>None\<close> selects the
  rows whose column is null.\<close>

definition dashboard_total_orders :: "database \<Rightarrow> int option \<Rightarrow> timestamp option \<Rightarrow> order list" where
  "dashboard_total_orders db user_branch start_date =
     filter_reported_since start_date
       (filter (\<lambda>ord. branch ord = user_branch \<and> status ord = ''completed''
                      \<and> delay_reason_reported_at ord \<noteq> None) (orders db))"

text \<open>The numerator queryset of the dashboard.\<close>

definition dashboard_orders_qs ::
  "database \<Rightarrow> int option \<Rightarrow> timestamp option \<Rightarrow> string \<Rightarrow> int option \<Rightarrow> string \<Rightarrow> order list" where
  "dashboard_orders_qs db user_branch start_date selected_category user_id selected_order_type =
     (let orders_qs = (case user_branch of
                         Some b \<Rightarrow> filter (\<lambda>ord. branch ord = Some b \<and> delayed ord) (orders db)
                       | None \<Rightarrow> filter delayed (orders db))
      in filter_order_type selected_order_type
           (filter_user user_id
             (filter_category db selected_category
               (filter_reported_since start_date orders_qs))))"

text \<open>\<^verbatim>\<open>delay_analytics_dashboard\<close>: the entries of the template context computed from
  the orders (the lists offered in the filter form are left out).\<close>

definition delay_analytics_dashboard ::
  "database \<Rightarrow> timestamp \<Rightarrow> int option \<Rightarrow> request \<Rightarrow> error + dashboard_context" where
  "delay_analytics_dashboard db now user_branch req =
     (let time_period = GET_get (get_period req) ''30days'';
          start_date = get_start_date_from_period now time_period;
          selected_category = GET_get (get_category req) [];
          selected_user = GET_get (get_user req) [];
          selected_order_type = GET_get (get_order_type req) []
      in case reported_by_lookup db selected_user of
           Inl e \<Rightarrow> Inl e
         | Inr user_id \<Rightarrow>
             (let orders_qs = dashboard_orders_qs db user_branch start_date
                                selected_category user_id selected_order_type;
                  total_delayed_orders = length orders_qs;
                  total_orders = dashboard_total_orders db user_branch start_date;
                  delay_rate = percent_of total_delayed_orders (length total_orders)
              in Inr \<lparr>ctx_time_period = time_period,
                      ctx_selected_category = selected_category,
                      ctx_selected_user = selected_user,
                      ctx_selected_order_type = selected_order_type,
                      ctx_total_delayed_orders = total_delayed_orders,
                      ctx_delay_rate = py_round delay_rate 2\<rparr>))"

subsection \<open>Summary\<close>

record summary =
  sm_total_delayed_orders :: nat
  sm_total_all_orders :: nat
  sm_delay_percentage :: rat
  sm_exceeded_2_hours :: nat
  sm_average_hours :: rat

text \<open>The queryset \<^verbatim>\<open>total_all_orders\<close>: every order of the branch (of all branches for
  a caller without branch), created since the start date.\<close>

definition summary_total_all_orders ::
  "database \<Rightarrow> int option \<Rightarrow> timestamp option \<Rightarrow> order list" where
  "summary_total_all_orders db user_branch start_date =
     (let total_all_orders = (case user_branch of
                                Some b \<Rightarrow> filter (\<lambda>ord. branch ord = Some b) (orders db)
                              | None \<Rightarrow> orders db)
      in case start_date of
           None \<Rightarrow> total_all_orders
         | Some s \<Rightarrow> filter (\<lambda>ord. s \<le> created_at ord) total_all_orders)"

text \<open>The loop that adds up the durations of at most 1000 delayed orders.\<close>

fun duration_loop :: "order list \<Rightarrow> rat \<times> nat \<Rightarrow> rat \<times> nat" where
  "duration_loop [] acc = acc"
| "duration_loop (ord # rest) (total_duration, count) =
     (case duration_hours ord of
        Some duration \<Rightarrow> duration_loop rest (float_add total_duration duration, count + 1)
      | None \<Rightarrow> duration_loop rest (total_duration, count))"

text \<open>\<^verbatim>\<open>api_delay_analytics_summary\<close>: the \<^verbatim>\<open>summary\<close> object of the response (the
  list of top reasons is left out). The first filter on the user is that of
  \<^verbatim>\<open>delay_reasons_qs\<close>, built before any count.\<close>

definition api_delay_analytics_summary ::
  "database \<Rightarrow> timestamp \<Rightarrow> int option \<Rightarrow> request \<Rightarrow> error + summary" where
  "api_delay_analytics_summary db now user_branch req =
     (let time_period = GET_get (get_period req) ''30days'';
          selected_category = GET_get (get_category req) [];
          selected_user = GET_get (get_user req) [];
          selected_order_type = GET_get (get_order_type req) [];
          start_date = get_start_date_from_period now time_period
      in case reported_by_lookup db selected_user of
           Inl e \<Rightarrow> Inl e
         | Inr user_id \<Rightarrow>
             (let orders_with_delays = delayed_orders db user_branch start_date
                                         selected_category user_id selected_order_type;
                  total_delayed = length (remdups orders_with_delays);
                  total_all = length (summary_total_all_orders db user_branch start_date);
                  delay_percentage = percent_of total_delayed total_all;
                  exceeded_2_hours_count =
                    length (remdups (filter exceeded_9_hours orders_with_delays));
                  delayed_orders_with_times =
                    remdups (filter (\<lambda>ord. started_at ord \<noteq> None \<and> completed_at ord \<noteq> None)
                               orders_with_delays);
                  (total_duration, count) =
                    duration_loop (take 1000 delayed_orders_with_times) (0, 0);
                  avg_hours = (if count > 0 then float_truediv total_duration (of_nat count)
                               else 0)
              in Inr \<lparr>sm_total_delayed_orders = total_delayed,
                      sm_total_all_orders = total_all,
                      sm_delay_percentage = py_round delay_percentage 2,
                      sm_exceeded_2_hours = exceeded_2_hours_count,
                      sm_average_hours = py_round avg_hours 1\<rparr>))"

subsection \<open>Breakdown by category\<close>

record category_entry =
  ce_category :: string
  ce_category_name :: string
  ce_count :: nat
  ce_percentage :: rat

record breakdown_response =
  br_data :: "category_entry list"
  br_total :: nat

text \<open>The reverse relation \<^verbatim>\<open>reasons__orders\<close> of a category: the orders of its reasons.\<close>

definition category_orders :: "database \<Rightarrow> delay_reason_category \<Rightarrow> order list" where
  "category_orders db c =
     concat (map (\<lambda>r. filter (\<lambda>ord. delay_reason ord = Some (reason_id r)) (orders db))
               (filter (\<lambda>r. reason_category r = Some (category_id c)) (delay_reasons db)))"

text \<open>The queryset \<^verbatim>\<open>categories_qs\<close>. Every \<^verbatim>\<open>filter\<close> call across the relation is a
  join of its own: it asks for some order of the category with the property, not for one
  order with all of them.\<close>

definition breakdown_categories_qs ::
  "database \<Rightarrow> int option \<Rightarrow> timestamp option \<Rightarrow> string \<Rightarrow> int option \<Rightarrow> string
   \<Rightarrow> delay_reason_category list" where
  "breakdown_categories_qs db user_branch start_date selected_category user_id
     selected_order_type =
     (let qs = filter (\<lambda>c. list_ex (\<lambda>ord. delay_reason_reported_at ord \<noteq> None)
                             (category_orders db c)) (delay_reason_categories db);
          qs = (case user_branch of
                  None \<Rightarrow> qs
                | Some b \<Rightarrow> filter (\<lambda>c. list_ex (\<lambda>ord. branch ord = Some b)
                                           (category_orders db c)) qs);
          qs = (case start_date of
                  None \<Rightarrow> qs
                | Some s \<Rightarrow> filter (\<lambda>c. list_ex (reported_gte s) (category_orders db c)) qs);
          qs = (if selected_category \<noteq> [] then
                  filter (\<lambda>c. category_code c = selected_category) qs
                else qs);
          qs = (case user_id of
                  None \<Rightarrow> qs
                | Some u \<Rightarrow> filter (\<lambda>c. list_ex (\<lambda>ord. delay_reason_reported_by ord = Some u)
                                           (category_orders db c)) qs);
          qs = (if selected_order_type \<noteq> [] then
                  filter (\<lambda>c. list_ex (\<lambda>ord. order_type ord = selected_order_type)
                                (category_orders db c)) qs
                else qs)
      in qs)"

text \<open>The queryset \<^verbatim>\<open>orders_count\<close> of one category.\<close>

definition breakdown_orders_count ::
  "database \<Rightarrow> int option \<Rightarrow> timestamp option \<Rightarrow> int option \<Rightarrow> string
   \<Rightarrow> delay_reason_category \<Rightarrow> order list" where
  "breakdown_orders_count db user_branch start_date user_id selected_order_type category =
     filter_order_type selected_order_type
       (filter_user user_id
         (filter_reported_since start_date
           (filter_branch user_branch
             (filter (\<lambda>ord. order_category_id db ord = Some (category_id category)
                            \<and> delay_reason_reported_at ord \<noteq> None) (orders db)))))"

text \<open>The loop over the categories: a category with no order is skipped.\<close>

fun breakdown_loop ::
  "database \<Rightarrow> int option \<Rightarrow> timestamp option \<Rightarrow> int option \<Rightarrow> string
   \<Rightarrow> delay_reason_category list \<Rightarrow> (string \<times> string \<times> nat) list" where
  "breakdown_loop db user_branch start_date user_id selected_order_type [] = []"
| "breakdown_loop db user_branch start_date user_id selected_order_type (category # rest) =
     (let count = length (remdups (breakdown_orders_count db user_branch start_date
                                     user_id selected_order_type category))
      in (if count > 0
          then [(category_code category, get_category_display db (category_code category), count)]
          else [])
         @ breakdown_loop db user_branch start_date user_id selected_order_type rest)"

text \<open>\<^verbatim>\<open>api_delay_reasons_breakdown\<close>: the list is sorted by count, largest first, by a
  stable sort, and the percentages are added afterwards.\<close>

definition api_delay_reasons_breakdown ::
  "database \<Rightarrow> timestamp \<Rightarrow> int option \<Rightarrow> request \<Rightarrow> error + breakdown_response" where
  "api_delay_reasons_breakdown db now user_branch req =
     (let start_date = get_start_date_from_period now (GET_get (get_period req) ''30days'');
          selected_category = GET_get (get_category req) [];
          selected_user = GET_get (get_user req) [];
          selected_order_type = GET_get (get_order_type req) []
      in case reported_by_lookup db selected_user of
           Inl e \<Rightarrow> Inl e
         | Inr user_id \<Rightarrow>
             (let categories_qs = breakdown_categories_qs db user_branch start_date
                                    selected_category user_id selected_order_type;
                  data = breakdown_loop db user_branch start_date user_id selected_order_type
                           (remdups categories_qs);
                  data = sort_key (\<lambda>item. - int (snd (snd item))) data;
                  total = sum_list (map (\<lambda>item. snd (snd item)) data)
              in Inr \<lparr>br_data =
                        map (\<lambda>item.
                               \<lparr>ce_category = fst item,
                                ce_category_name = fst (snd item),
                                ce_count = snd (snd item),
                                ce_percentage =
                                  (if total > 0
                                   then py_round (float_mul (float_truediv
                                          (of_nat (snd (snd item))) (of_nat total)) 100) 1
                                   else 0)\<rparr>) data,
                      br_total = total\<rparr>))"

text \<open>The local variable \<^verbatim>\<open>data\<close> of the breakdown when it has been sorted, before the
  percentages are added, for a request whose \<^verbatim>\<open>user\<close> parameter has been converted.\<close>

abbreviation breakdown_rows ::
  "database \<Rightarrow> timestamp \<Rightarrow> int option \<Rightarrow> request \<Rightarrow> (string \<times> string \<times> nat) list" where
  "breakdown_rows db now ub req \<equiv>
     sort_key (\<lambda>item. - int (snd (snd item)))
       (breakdown_loop db ub (req_start_date now req) (req_user_id db req) (req_order_type req)
          (remdups (breakdown_categories_qs db ub (req_start_date now req) (req_category req)
                      (req_user_id db req) (req_order_type req))))"

subsection \<open>Impact analysis\<close>

record impact_metrics =
  im_total_delayed_hours :: rat
  im_estimated_revenue_impact :: rat
  im_customers_with_repeat_delays :: nat
  im_total_unique_customers_affected :: nat

record reason_impact_entry =
  ri_reason_text :: "string option"
  ri_category :: "string option"
  ri_category_name :: "string option"
  ri_count :: nat
  ri_affected_customers :: nat

record impact_response =
  ir_impact :: impact_metrics
  ir_reason_impact :: "reason_impact_entry list"

text \<open>The inner loop over the invoices of an order: an amount that is null or zero is
  skipped. The amounts are decimals, added exactly.\<close>

fun invoice_loop :: "invoice list \<Rightarrow> rat \<Rightarrow> rat" where
  "invoice_loop [] total_revenue_at_risk = total_revenue_at_risk"
| "invoice_loop (iv # rest) total_revenue_at_risk =
     (case total_amount iv of
        Some a \<Rightarrow> invoice_loop rest (if a \<noteq> 0 then total_revenue_at_risk + a
                                     else total_revenue_at_risk)
      | None \<Rightarrow> invoice_loop rest total_revenue_at_risk)"

text \<open>The loop over the delayed orders that have both timestamps; it carries
  \<^verbatim>\<open>total_delayed_hours\<close> and \<^verbatim>\<open>total_revenue_at_risk\<close>. The queryset it runs over has
  no order without a duration.\<close>

fun impact_loop :: "database \<Rightarrow> order list \<Rightarrow> rat \<times> rat \<Rightarrow> rat \<times> rat" where
  "impact_loop db [] acc = acc"
| "impact_loop db (ord # rest) (total_delayed_hours, total_revenue_at_risk) =
     (let total_delayed_hours =
            (case duration_hours ord of
               Some duration \<Rightarrow>
                 (if duration > 9 then float_add total_delayed_hours (float_sub duration 9)
                  else total_delayed_hours)
             | None \<Rightarrow> total_delayed_hours);
          invoices = filter (\<lambda>iv. invoice_order iv = order_id ord) (invoices db)
      in impact_loop db rest (total_delayed_hours, invoice_loop invoices total_revenue_at_risk))"

text \<open>The queryset \<^verbatim>\<open>orders_qs\<close> of the impact analysis and the queryset its loop runs
  over.\<close>

definition impact_orders_qs :: "database \<Rightarrow> timestamp \<Rightarrow> int option \<Rightarrow> request \<Rightarrow> order list" where
  "impact_orders_qs db now user_branch req =
     delayed_orders_in_period db user_branch
       (get_start_date_from_period now (GET_get (get_period req) ''30days''))"

definition impact_orders_with_times ::
  "database \<Rightarrow> timestamp \<Rightarrow> int option \<Rightarrow> request \<Rightarrow> order list" where
  "impact_orders_with_times db now user_branch req =
     filter (\<lambda>ord. started_at ord \<noteq> None \<and> completed_at ord \<noteq> None)
       (impact_orders_qs db now user_branch req)"

text \<open>The local variable \<^verbatim>\<open>total_delayed_hours\<close> when the loop has ended.\<close>

definition impact_total_delayed_hours ::
  "database \<Rightarrow> timestamp \<Rightarrow> int option \<Rightarrow> request \<Rightarrow> rat" where
  "impact_total_delayed_hours db now user_branch req =
     fst (impact_loop db (impact_orders_with_times db now user_branch req) (0, 0))"

text \<open>\<^verbatim>\<open>api_delay_impact_analysis\<close>; the revenue is kept as a number. The view reads
  the period only, so it has no conversion to fail.\<close>

definition api_delay_impact_analysis ::
  "database \<Rightarrow> timestamp \<Rightarrow> int option \<Rightarrow> request \<Rightarrow> impact_response" where
  "api_delay_impact_analysis db now user_branch req =
     (let orders_qs = impact_orders_qs db now user_branch req;
          total_delayed_hours = impact_total_delayed_hours db now user_branch req;
          total_revenue_at_risk =
            snd (impact_loop db (impact_orders_with_times db now user_branch req) (0, 0));
          customers_with_delays =
            length (filter (\<lambda>row. snd row \<ge> 2) (group_count customer orders_qs));
          key = (\<lambda>ord. (order_reason_text db ord, order_category_code db ord));
          reason_impact_raw = take 5 (order_by_count_desc (group_count key orders_qs))
      in \<lparr>ir_impact =
            \<lparr>im_total_delayed_hours = py_round total_delayed_hours 1,
             im_estimated_revenue_impact = total_revenue_at_risk,
             im_customers_with_repeat_delays = customers_with_delays,
             im_total_unique_customers_affected = length (remdups (map customer orders_qs))\<rparr>,
          ir_reason_impact =
            map (\<lambda>item.
                   \<lparr>ri_reason_text = fst (fst item),
                    ri_category = snd (fst item),
                    ri_category_name = get_category_display_opt db (snd (fst item)),
                    ri_count = snd item,
                    ri_affected_customers =
                      length (remdups (filter (\<lambda>c. c \<noteq> None)
                                (map customer (filter (\<lambda>ord. key ord = fst item) orders_qs))))\<rparr>)
              reason_impact_raw\<rparr>)"

subsection \<open>Recommendations\<close>

record recommendation =
  rc_priority :: string
  rc_category :: string
  rc_title :: string
  rc_description :: string
  rc_impact :: string

text \<open>\<^verbatim>\<open>priority_order.get(x['priority'], 3)\<close>\<close>

definition priority_order :: "string \<Rightarrow> nat" where
  "priority_order p =
     (case map_of [(''high'', 0), (''medium'', 1), (''low'', 2)] p of
        Some rank \<Rightarrow> rank
      | None \<Rightarrow> 3)"

text \<open>The queryset \<^verbatim>\<open>orders_qs\<close> of the recommendations: of the request it reads the
  period only.\<close>

definition recommendations_orders_qs ::
  "database \<Rightarrow> timestamp \<Rightarrow> int option \<Rightarrow> request \<Rightarrow> order list" where
  "recommendations_orders_qs db now user_branch req =
     delayed_orders_in_period db user_branch
       (get_start_date_from_period now (GET_get (get_period req) ''30days''))"

text \<open>Analysis 1, the most common category. The rows are grouped by the category code,
  so the orders whose reason has no category form the row of the code \<^verbatim>\<open>None\<close>. The
  count is compared with the float product \<^verbatim>\<open>orders_qs.count() * 0.3\<close>.\<close>

definition category_counts :: "database \<Rightarrow> order list \<Rightarrow> (string option \<times> nat) list" where
  "category_counts db orders_qs =
     order_by_count_desc (group_count (order_category_code db) orders_qs)"

definition analysis_1 :: "database \<Rightarrow> order list \<Rightarrow> recommendation list" where
  "analysis_1 db orders_qs =
     (case category_counts db orders_qs of
        [] \<Rightarrow> []
      | top_cat # _ \<Rightarrow>
          if of_nat (snd top_cat)
               > float_mul (float_round (of_nat (length orders_qs))) (float_round (3 / 10)) then
            (let category_display = str_opt (get_category_display_opt db (fst top_cat))
             in [\<lparr>rc_priority = ''high'',
                  rc_category = ''Process Improvement'',
                  rc_title = ''Address '' @ category_display @ '' Issues'',
                  rc_description =
                    category_display @ '' accounts for ''
                    @ str_1f (py_round (float_mul (float_truediv (of_nat (snd top_cat))
                                 (of_nat (length orders_qs))) 100) 1)
                    @ ''% of delays. Consider process improvements or resource allocation.'',
                  rc_impact = ''high''\<rparr>])
          else [])"

text \<open>Analysis 2, the orders over the duration threshold.\<close>

definition analysis_2 :: "order list \<Rightarrow> recommendation list" where
  "analysis_2 orders_qs =
     (let exceeded_count = length (filter exceeded_9_hours orders_qs)
      in if exceeded_count > 0 \<and> length orders_qs > 0 then
           (let pct = float_mul (float_truediv (of_nat exceeded_count)
                                   (of_nat (length orders_qs))) 100;
                priority = (if pct > 20 then ''high'' else ''medium'')
            in [\<lparr>rc_priority = priority,
                 rc_category = ''Urgent'',
                 rc_title = str_1f pct @ ''% of Delays Exceed 2 Hours'',
                 rc_description =
                   str_nat exceeded_count
                   @ '' orders exceeded 2 hours. Implement preventive measures to reduce critical delays.'',
                 rc_impact = ''critical''\<rparr>])
         else [])"

text \<open>Analysis 3, the three most frequent reasons.\<close>

definition analysis_3 :: "database \<Rightarrow> order list \<Rightarrow> recommendation list" where
  "analysis_3 db orders_qs =
     (let top_reasons = take 3 (order_by_count_desc (group_count (order_reason_text db) orders_qs))
      in map (\<lambda>reason.
                \<lparr>rc_priority = ''medium'',
                 rc_category = ''Root Cause Analysis'',
                 rc_title = ''Investigate: '' @ str_opt (fst reason),
                 rc_description =
                   ''This reason accounts for '' @ str_nat (snd reason)
                   @ '' delay incidents. Consider root cause analysis and preventive actions.'',
                 rc_impact = ''medium''\<rparr>) top_reasons)"

text \<open>Analysis 4, the seven most recent days with a report. \<^verbatim>\<open>TruncDate\<close> is the number
  of the day; every order of the queryset has a report timestamp, so no row has the date
  \<^verbatim>\<open>None\<close>.\<close>

definition reported_date :: "order \<Rightarrow> int option" where
  "reported_date ord = map_option (\<lambda>t. t div 86400000000) (delay_reason_reported_at ord)"

definition daily_rates :: "order list \<Rightarrow> (int option \<times> nat) list" where
  "daily_rates orders_qs =
     take 7 (sort_key (\<lambda>row. case fst row of None \<Rightarrow> 0 | Some d \<Rightarrow> - d)
               (group_count reported_date orders_qs))"

definition analysis_4 :: "order list \<Rightarrow> recommendation list" where
  "analysis_4 orders_qs =
     (if daily_rates orders_qs \<noteq> [] then
        (let recent_avg = float_truediv (of_nat (sum_list (map snd (daily_rates orders_qs))))
                            (of_nat (length (daily_rates orders_qs)))
         in if recent_avg > 2 then
              [\<lparr>rc_priority = ''high'',
                rc_category = ''Trend'',
                rc_title = ''Increasing Delay Incidents'',
                rc_description =
                  ''Recent average of '' @ str_1f recent_avg
                  @ '' delays per day. Escalating trend detected. Immediate action recommended.'',
                rc_impact = ''high''\<rparr>]
            else [])
      else [])"

text \<open>The list \<^verbatim>\<open>recommendations\<close> before it is sorted.\<close>

definition emitted_recommendations ::
  "database \<Rightarrow> timestamp \<Rightarrow> int option \<Rightarrow> request \<Rightarrow> recommendation list" where
  "emitted_recommendations db now user_branch req =
     (let orders_qs = recommendations_orders_qs db now user_branch req
      in analysis_1 db orders_qs @ analysis_2 orders_qs @ analysis_3 db orders_qs
         @ analysis_4 orders_qs)"

text \<open>\<^verbatim>\<open>api_delay_recommendations\<close>: \<^verbatim>\<open>list.sort\<close> is stable, and the response holds the
  first eight records.\<close>

definition api_delay_recommendations ::
  "database \<Rightarrow> timestamp \<Rightarrow> int option \<Rightarrow> request \<Rightarrow> recommendation list" where
  "api_delay_recommendations db now user_branch req =
     take 8 (sort_key (\<lambda>x. priority_order (rc_priority x))
               (emitted_recommendations db now user_branch req))"

subsection \<open>All delay reasons\<close>

record reason_entry =
  re_id :: "int option"
  re_reason_text :: "string option"
  re_category :: "string option"
  re_category_name :: "string option"
  re_count :: nat
  re_percentage :: rat

record all_reasons_response =
  ar_success :: bool
  ar_data :: "reason_entry list"
  ar_total :: nat
  ar_message :: string

text \<open>\<^verbatim>\<open>api_all_delay_reasons\<close>, with its early return for an empty queryset. The
  percentage of a row is computed by the database, \<^verbatim>\<open>count * 100.0 / total\<close>, taken here
  in float arithmetic.\<close>

definition api_all_delay_reasons ::
  "database \<Rightarrow> timestamp \<Rightarrow> int option \<Rightarrow> request \<Rightarrow> error + all_reasons_response" where
  "api_all_delay_reasons db now user_branch req =
     (let time_period = GET_get (get_period req) ''30days'';
          selected_category = GET_get (get_category req) [];
          selected_user = GET_get (get_user req) [];
          selected_order_type = GET_get (get_order_type req) [];
          start_date = get_start_date_from_period now time_period
      in case reported_by_lookup db selected_user of
           Inl e \<Rightarrow> Inl e
         | Inr user_id \<Rightarrow>
             (let orders_qs = delayed_orders db user_branch start_date selected_category
                                user_id selected_order_type;
                  total_delayed = length orders_qs
              in if total_delayed = 0 then
                   Inr \<lparr>ar_success = True, ar_data = [], ar_total = 0,
                        ar_message = ''No delay reasons submitted in the selected period.''\<rparr>
                 else
                   (let all_reasons =
                          order_by_count_desc
                            (group_count (\<lambda>ord. (delay_reason ord, order_reason_text db ord,
                                                 order_category_code db ord)) orders_qs);
                        data =
                          map (\<lambda>item.
                                 \<lparr>re_id = fst (fst item),
                                  re_reason_text = fst (snd (fst item)),
                                  re_category = snd (snd (fst item)),
                                  re_category_name =
                                    get_category_display_opt db (snd (snd (fst item))),
                                  re_count = snd item,
                                  re_percentage =
                                    py_round (float_truediv (float_mul (of_nat (snd item)) 100)
                                                (of_nat total_delayed)) 1\<rparr>)
                            all_reasons
                    in Inr \<lparr>ar_success = True, ar_data = data, ar_total = total_delayed,
                            ar_message = ''Showing '' @ str_nat (length data)
                                         @ '' unique delay reasons from ''
                                         @ str_nat total_delayed @ '' submitted.''\<rparr>)))"

subsection \<open>The delayed orders view in the words of the specification\<close>

text \<open>Following the specification (4.2 a), not the source: the orders with a delay reason
  and a delay-report timestamp, narrowed by the scope if set, by the report timestamp not
  before the start if set, by the category of the reason if set, by the reporter if set,
  and by the order type if set.\<close>

definition in_delayed_view ::
  "database \<Rightarrow> int option \<Rightarrow> timestamp option \<Rightarrow> string \<Rightarrow> int option \<Rightarrow> string
   \<Rightarrow> order \<Rightarrow> bool" where
  "in_delayed_view db scope start category_filter reporter type_filter ord =
     (delay_reason ord \<noteq> None \<and> delay_reason_reported_at ord \<noteq> None
      \<and> (case scope of None \<Rightarrow> True | Some b \<Rightarrow> branch ord = Some b)
      \<and> (case start of
            None \<Rightarrow> True
          | Some s \<Rightarrow> (case delay_reason_reported_at ord of None \<Rightarrow> False | Some t \<Rightarrow> s \<le> t))
      \<and> (if category_filter = [] then True
          else order_category_code db ord = Some category_filter)
      \<and> (case reporter of None \<Rightarrow> True | Some u \<Rightarrow> delay_reason_reported_by ord = Some u)
      \<and> (if type_filter = [] then True else order_type ord = type_filter))"

text \<open>Following the specification (table of 4.3), not the source: the denominator the
  specification assigns to the summary, the completed orders with a delay-report
  timestamp of the same period and scope.\<close>

definition spec_summary_baseline :: "database \<Rightarrow> int option \<Rightarrow> timestamp option \<Rightarrow> nat" where
  "spec_summary_baseline db scope start =
     length (filter (\<lambda>ord. status ord = ''completed''
                       \<and> (case scope of None \<Rightarrow> True | Some b \<Rightarrow> branch ord = Some b)
                       \<and> (case delay_reason_reported_at ord of
                             None \<Rightarrow> False
                           | Some t \<Rightarrow> (case start of None \<Rightarrow> True | Some s \<Rightarrow> s \<le> t)))
               (orders db))"

subsection \<open>Sample data\<close>

text \<open>Small tables on which the views are evaluated below. The conversion of the samples
  accepts the strings of decimal digits and refuses every other string.\<close>

definition sample_int_of_string :: "string \<Rightarrow> int option" where
  "sample_int_of_string s =
     (if s \<noteq> [] \<and> list_all (\<lambda>c. c \<in> set digit_chars) s
      then Some (foldl (\<lambda>n c. 10 * n + (int (of_char c) - 48)) 0 s)
      else None)"

definition plain_order :: "int \<Rightarrow> order" where
  "plain_order i =
     \<lparr>order_id = i, branch = None, order_type = ''service'', status = ''pending'',
      customer = None, started_at = None, completed_at = None, created_at = 0,
      exceeded_9_hours = False, delay_reason = None, delay_reason_reported_by = None,
      delay_reason_reported_at = None\<rparr>"

definition delayed_order :: "int \<Rightarrow> int \<Rightarrow> timestamp \<Rightarrow> order" where
  "delayed_order i reason t =
     (plain_order i)\<lparr>delay_reason := Some reason, delay_reason_reported_at := Some t\<rparr>"

definition sample_reasons :: "delay_reason_row list" where
  "sample_reasons =
     [\<lparr>reason_id = 1, reason_text = ''Waiting for parts'', reason_category = Some 1\<rparr>,
      \<lparr>reason_id = 2, reason_text = ''Truck late'', reason_category = Some 2\<rparr>,
      \<lparr>reason_id = 3, reason_text = ''Customer absent'', reason_category = Some 3\<rparr>,
      \<lparr>reason_id = 4, reason_text = ''Staff shortage'', reason_category = Some 4\<rparr>,
      \<lparr>reason_id = 5, reason_text = ''Other'', reason_category = None\<rparr>]"

definition sample_categories :: "delay_reason_category list" where
  "sample_categories =
     [\<lparr>category_id = 1, category_code = ''mechanical'', is_active = True\<rparr>,
      \<lparr>category_id = 2, category_code = ''logistics'', is_active = True\<rparr>,
      \<lparr>category_id = 3, category_code = ''customer'', is_active = True\<rparr>,
      \<lparr>category_id = 4, category_code = ''staffing'', is_active = True\<rparr>]"

definition sample_db :: "order list \<Rightarrow> database" where
  "sample_db rows =
     \<lparr>orders = rows, delay_reasons = sample_reasons,
      delay_reason_categories = sample_categories, invoices = [],
      CATEGORY_CHOICES = [(''mechanical'', ''Mechanical''), (''logistics'', ''Logistics'')],
      int_of_string = sample_int_of_string\<rparr>"

definition no_params :: request where
  "no_params = \<lparr>get_period = None, get_category = None, get_user = None, get_order_type = None\<rparr>"

definition all_periods :: request where
  "all_periods = no_params\<lparr>get_period := Some ''all''\<rparr>"

definition user_abc :: request where
  "user_abc = no_params\<lparr>get_user := Some ''abc''\<rparr>"

text \<open>One delayed, completed order and one order that is neither.\<close>

definition half_delayed_db :: database where
  "half_delayed_db = sample_db [(delayed_order 1 1 0)\<lparr>status := ''completed''\<rparr>, plain_order 2]"

text \<open>23 delayed orders among 160.\<close>

definition many_orders_db :: database where
  "many_orders_db =
     sample_db (map (\<lambda>i. delayed_order i 1 0) [1..23] @ map plain_order [24..160])"

text \<open>Two delayed orders created 50 days and reported 99 days after the origin, and one
  order created 99 days after it.\<close>

definition late_reports_db :: database where
  "late_reports_db =
     sample_db [(delayed_order 1 1 (timedelta_days 99))\<lparr>created_at := timedelta_days 50\<rparr>,
                (delayed_order 2 2 (timedelta_days 99))\<lparr>created_at := timedelta_days 50\<rparr>,
                (plain_order 3)\<lparr>created_at := timedelta_days 99\<rparr>]"

text \<open>One delayed, completed order of branch 1; and with it a delayed order of branch 2
  and a delayed, completed order of no branch.\<close>

definition one_branch_db :: database where
  "one_branch_db =
     sample_db [(delayed_order 1 1 0)\<lparr>status := ''completed'', branch := Some 1\<rparr>]"

definition mixed_branches_db :: database where
  "mixed_branches_db =
     sample_db [(delayed_order 1 1 0)\<lparr>status := ''completed'', branch := Some 1\<rparr>,
                (delayed_order 2 2 0)\<lparr>branch := Some 2\<rparr>,
                (delayed_order 3 2 0)\<lparr>status := ''completed''\<rparr>]"

text \<open>Durations of 11 hours, of 5 hours and none; and a duration of 9 hours 21 minutes.\<close>

definition two_durations_db :: database where
  "two_durations_db =
     sample_db [(delayed_order 1 1 0)\<lparr>started_at := Some 0, completed_at := Some 39600000000\<rparr>,
                (delayed_order 2 2 0)\<lparr>started_at := Some 0, completed_at := Some 18000000000\<rparr>,
                delayed_order 3 2 0]"

definition nine_twenty_one_db :: database where
  "nine_twenty_one_db =
     sample_db [(delayed_order 1 1 0)\<lparr>started_at := Some 0, completed_at := Some 33660000000\<rparr>,
                (plain_order 2)\<lparr>started_at := Some 0, completed_at := Some 72000000000\<rparr>]"

text \<open>Two delayed orders whose reason has no category and one mechanical order, all
  reported at the origin; an order with no delay; and a mechanical order reported 40 days
  before the origin.\<close>

definition uncategorised_db :: database where
  "uncategorised_db =
     sample_db [delayed_order 1 5 0, delayed_order 2 5 0, delayed_order 3 1 0, plain_order 4,
                delayed_order 5 1 (- timedelta_days 40)]"

text \<open>23 mechanical and 57 logistics orders.\<close>

definition eighty_orders_db :: database where
  "eighty_orders_db =
     sample_db (map (\<lambda>i. delayed_order i 1 0) [1..23] @ map (\<lambda>i. delayed_order i 2 0) [24..80])"

text \<open>Three mechanical and seven logistics orders.\<close>

definition scenario_a_db :: database where
  "scenario_a_db =
     sample_db (map (\<lambda>i. delayed_order i 1 0) [1, 2, 3]
                @ map (\<lambda>i. delayed_order i 2 0) [4, 5, 6, 7, 8, 9, 10])"

text \<open>One order over the threshold among six delayed orders of one day, reported by
  three mechanical and three logistics reasons: the second analysis emits a record of
  medium priority before the fourth emits one of high priority.\<close>

definition medium_before_high_db :: database where
  "medium_before_high_db =
     sample_db ((delayed_order 1 1 0)\<lparr>exceeded_9_hours := True\<rparr>
                # map (\<lambda>i. delayed_order i 1 0) [2, 3]
                @ map (\<lambda>i. delayed_order i 2 0) [4, 5, 6])"

section \<open>Properties\<close>

subsection \<open>Rounding\<close>

lemma pow2_pos: "0 < pow2 e"
  by (simp add: pow2_def)

lemma pow2_Suc: "pow2 (e + 1) = 2 * pow2 e"
proof (cases "0 \<le> e")
  case True
  then show ?thesis by (simp add: pow2_def nat_add_distrib)
next
  case False
  then have "nat (- e) = Suc (nat (- (e + 1)))" by simp
  then show ?thesis using False by (simp add: pow2_def)
qed

lemma pow2_add_nat: "pow2 (e + int d) = 2 ^ d * pow2 e"
proof (induction d)
  case 0
  then show ?case by simp
next
  case (Suc d)
  have "e + int (Suc d) = (e + int d) + 1" by simp
  then have "pow2 (e + int (Suc d)) = pow2 ((e + int d) + 1)" by (simp only:)
  also have "\<dots> = 2 * pow2 (e + int d)" by (rule pow2_Suc)
  finally show ?case using Suc by simp
qed

lemma pow2_mono: "a \<le> b \<Longrightarrow> pow2 a \<le> pow2 b"
proof -
  assume "a \<le> b"
  then have "b = a + int (nat (b - a))" by simp
  then have "pow2 b = 2 ^ nat (b - a) * pow2 a" by (metis pow2_add_nat)
  moreover have "(1::rat) \<le> 2 ^ nat (b - a)" by simp
  ultimately show ?thesis using pow2_pos [of a] by (simp add: mult_le_cancel_right1)
qed

lemma log2_up_bounds:
  "1 \<le> q \<Longrightarrow> pow2 (log2_up q) \<le> q \<and> q < pow2 (log2_up q + 1) \<and> 0 \<le> log2_up q"
proof (induction q rule: log2_up.induct)
  case (1 q)
  show ?case
  proof (cases "q < 2")
    case True
    with "1.prems" show ?thesis by (simp add: log2_up.simps [of q] pow2_def)
  next
    case False
    then have "1 \<le> q / 2" by simp
    with "1.IH" False have ih: "pow2 (log2_up (q / 2)) \<le> q / 2"
      "q / 2 < pow2 (log2_up (q / 2) + 1)" "0 \<le> log2_up (q / 2)" by simp_all
    have eq: "log2_up q = log2_up (q / 2) + 1" using False by (simp add: log2_up.simps [of q])
    have "pow2 (log2_up q) = 2 * pow2 (log2_up (q / 2))"
      by (simp only: eq pow2_Suc)
    moreover have "pow2 (log2_up q + 1) = 2 * pow2 (log2_up (q / 2) + 1)"
      by (simp only: eq pow2_Suc)
    ultimately show ?thesis using ih eq by simp
  qed
qed

lemma log2_down_bounds:
  "0 < q \<Longrightarrow> q < 1 \<Longrightarrow>
     pow2 (log2_down q) \<le> q \<and> q < pow2 (log2_down q + 1) \<and> log2_down q < 0"
proof (induction q rule: log2_down.induct)
  case (1 q)
  show ?case
  proof (cases "q * 2 < 1")
    case True
    with "1.IH" "1.prems" have ih: "pow2 (log2_down (q * 2)) \<le> q * 2"
      "q * 2 < pow2 (log2_down (q * 2) + 1)" "log2_down (q * 2) < 0" by simp_all
    have eq: "log2_down (q * 2) = log2_down q + 1"
      using "1.prems" by (simp add: log2_down.simps [of q])
    have "pow2 (log2_down (q * 2)) = 2 * pow2 (log2_down q)"
      by (simp only: eq pow2_Suc)
    moreover have "pow2 (log2_down (q * 2) + 1) = 2 * pow2 (log2_down q + 1)"
      by (simp only: eq pow2_Suc)
    ultimately show ?thesis using ih eq by simp
  next
    case False
    then have "log2_down (q * 2) = 0" by (simp add: log2_down.simps [of "q * 2"])
    then have eq: "log2_down q = - 1" using "1.prems" by (simp add: log2_down.simps [of q])
    show ?thesis using False "1.prems" by (simp add: eq pow2_def)
  qed
qed

lemma log2_floor_bounds:
  "0 < q \<Longrightarrow> pow2 (log2_floor q) \<le> q \<and> q < pow2 (log2_floor q + 1)"
  using log2_up_bounds [of q] log2_down_bounds [of q]
  by (cases "1 \<le> q") (simp_all add: log2_floor_def)

lemma log2_floor_unique:
  assumes "0 < q" and "pow2 e \<le> q" and "q < pow2 (e + 1)"
  shows "log2_floor q = e"
proof -
  let ?e' = "log2_floor q"
  have b: "pow2 ?e' \<le> q" "q < pow2 (?e' + 1)" using log2_floor_bounds [OF assms(1)] by simp_all
  have "?e' < e + 1"
  proof (rule ccontr)
    assume "\<not> ?e' < e + 1"
    then have "pow2 (e + 1) \<le> pow2 ?e'" by (intro pow2_mono) simp
    with b(1) assms(3) show False by simp
  qed
  moreover have "e < ?e' + 1"
  proof (rule ccontr)
    assume "\<not> e < ?e' + 1"
    then have "pow2 (?e' + 1) \<le> pow2 e" by (intro pow2_mono) simp
    with b(2) assms(2) show False by simp
  qed
  ultimately show ?thesis by simp
qed

lemma round_half_even_ge: "of_int n \<le> q \<Longrightarrow> n \<le> round_half_even q"
proof -
  assume "of_int n \<le> q"
  then have "n \<le> \<lfloor>q\<rfloor>" by (simp add: le_floor_iff)
  then show ?thesis by (simp add: round_half_even_def Let_def)
qed

lemma round_half_even_le: "q \<le> of_int n \<Longrightarrow> round_half_even q \<le> n"
proof (cases "q = of_int n")
  case True
  then show ?thesis by (simp add: round_half_even_def Let_def)
next
  case False
  assume "q \<le> of_int n"
  with False have "q < of_int n" by simp
  then have "\<lfloor>q\<rfloor> < n" by (simp add: floor_less_iff)
  then show ?thesis by (simp add: round_half_even_def Let_def)
qed

lemma round_half_even_of_int: "round_half_even (of_int m) = m"
  by (simp add: round_half_even_def)

lemma float_round_minus: "float_round (- q) = - float_round q"
  by (simp add: float_round_def Let_def)

lemma float_round_nonneg: "0 \<le> q \<Longrightarrow> 0 \<le> float_round q"
proof (cases "q = 0")
  case True
  then show ?thesis by (simp add: float_round_def)
next
  case False
  assume "0 \<le> q"
  with False have pos: "0 < q" by simp
  let ?ulp = "pow2 (log2_floor \<bar>q\<bar> - 52)"
  have "of_int 0 \<le> \<bar>q\<bar> / ?ulp" using pow2_pos [of "log2_floor \<bar>q\<bar> - 52"] by simp
  then have "0 \<le> round_half_even (\<bar>q\<bar> / ?ulp)" by (rule round_half_even_ge)
  then show ?thesis using pos pow2_pos [of "log2_floor \<bar>q\<bar> - 52"]
    by (simp add: float_round_def Let_def)
qed

lemma float_round_nonpos: "q \<le> 0 \<Longrightarrow> float_round q \<le> 0"
  using float_round_nonneg [of "- q"] by (simp add: float_round_minus)

lemma float_round_le_int:
  assumes "0 \<le> q" and "q \<le> of_int n" and "n < 2 ^ 53"
  shows "float_round q \<le> of_int n"
proof (cases "q = 0")
  case True
  with assms show ?thesis by (simp add: float_round_def)
next
  case False
  with assms have pos: "0 < q" by simp
  let ?e = "log2_floor q"
  have low: "pow2 ?e \<le> q" using log2_floor_bounds [OF pos] by simp
  have "?e < 53"
  proof (rule ccontr)
    assume "\<not> ?e < 53"
    then have "pow2 53 \<le> pow2 ?e" by (intro pow2_mono) simp
    with low assms(2) have "pow2 53 \<le> of_int n" by simp
    moreover have "pow2 53 = of_int (2 ^ 53)" by (simp add: pow2_def)
    ultimately have "(2::int) ^ 53 \<le> n" by (simp only: of_int_le_iff)
    with assms(3) show False by simp
  qed
  define k where "k = nat (52 - ?e)"
  have ulp: "pow2 (?e - 52) = 1 / 2 ^ k"
    using \<open>?e < 53\<close> by (auto simp: pow2_def k_def)
  have "q / (1 / 2 ^ k) \<le> of_int (n * 2 ^ k)"
    using assms(2) by (simp add: mult_right_mono)
  then have "round_half_even (q / (1 / 2 ^ k)) \<le> n * 2 ^ k" by (rule round_half_even_le)
  then have "(of_int (round_half_even (q / (1 / 2 ^ k))) :: rat) \<le> of_int (n * 2 ^ k)"
    by (simp only: of_int_le_iff)
  then have "(of_int (round_half_even (q / (1 / 2 ^ k))) :: rat) * (1 / 2 ^ k) \<le> of_int n"
    by (simp add: field_simps)
  then show ?thesis using pos by (simp add: float_round_def Let_def ulp)
qed

text \<open>A float is rounded to itself.\<close>

lemma float_round_pos_eq:
  assumes "0 < r" and "log2_floor r = e" and "r / pow2 (e - 52) = of_int m"
  shows "float_round r = of_int m * pow2 (e - 52)"
proof -
  have "\<bar>r\<bar> = r" "sgn r = 1" "r \<noteq> 0" using assms(1) by simp_all
  then have "float_round r
               = of_int (round_half_even (r / pow2 (log2_floor r - 52))) * pow2 (log2_floor r - 52)"
    by (simp add: float_round_def Let_def)
  also have "\<dots> = of_int (round_half_even (of_int m)) * pow2 (e - 52)"
    by (simp only: assms(2) assms(3))
  finally show ?thesis by (simp only: round_half_even_of_int)
qed

lemma float_round_idem_pos:
  assumes pos: "0 < q"
  shows "float_round (float_round q) = float_round q"
proof -
  define e where "e = log2_floor q"
  define u where "u = pow2 (e - 52)"
  define m where "m = round_half_even (q / u)"
  define r where "r = of_int m * u"
  have u_pos: "0 < u" unfolding u_def by (rule pow2_pos)
  have b: "pow2 e \<le> q" "q < pow2 (e + 1)"
    using log2_floor_bounds [OF pos] by (simp_all add: e_def)
  have e52: "pow2 e = 2 ^ 52 * u"
    using pow2_add_nat [of "e - 52" 52] by (simp add: u_def)
  have "pow2 (e + 1) = pow2 (e - 52 + int 53)"
    by (rule arg_cong [of _ _ pow2]) simp
  then have e53: "pow2 (e + 1) = 2 ^ 53 * u"
    by (simp only: pow2_add_nat u_def)
  have "\<bar>q\<bar> = q" "sgn q = 1" "q \<noteq> 0" using pos by simp_all
  then have fr: "float_round q = r"
    by (simp add: float_round_def Let_def r_def m_def u_def e_def)
  have "of_int (2 ^ 52) \<le> q / u" using b(1) u_pos by (simp add: e52 le_divide_eq)
  then have m_lo: "2 ^ 52 \<le> m" unfolding m_def by (rule round_half_even_ge)
  have "q / u \<le> of_int (2 ^ 53)" using b(2) u_pos by (simp add: e53 divide_le_eq)
  then have m_hi: "m \<le> 2 ^ 53" unfolding m_def by (rule round_half_even_le)
  have m_pos: "(0::rat) < of_int m" using m_lo by simp
  have r_pos: "0 < r" unfolding r_def using m_pos u_pos by (rule mult_pos_pos)
  have "(of_int (2 ^ 52) :: rat) \<le> of_int m" using m_lo by (simp only: of_int_le_iff)
  then have "of_int (2 ^ 52) * u \<le> of_int m * u" using u_pos by (simp only: mult_le_cancel_right_pos)
  then have r_lo: "pow2 e \<le> r" by (simp add: e52 r_def)
  show ?thesis
  proof (cases "m < 2 ^ 53")
    case True
    then have "(of_int m :: rat) < of_int (2 ^ 53)" by (simp only: of_int_less_iff)
    then have "of_int m * u < of_int (2 ^ 53) * u"
      using u_pos by (simp only: mult_less_cancel_right_pos)
    then have "r < pow2 (e + 1)" by (simp add: e53 r_def)
    with r_pos r_lo have ex: "log2_floor r = e" by (intro log2_floor_unique)
    have "r / pow2 (e - 52) = of_int m" using u_pos by (simp add: r_def u_def)
    with r_pos ex have "float_round r = of_int m * pow2 (e - 52)" by (rule float_round_pos_eq)
    then have "float_round r = r" by (simp only: r_def u_def)
    then show ?thesis by (simp only: fr)
  next
    case False
    with m_hi have m: "m = 2 ^ 53" by simp
    have r: "r = pow2 (e + 1)" by (simp add: m e53 r_def)
    have "pow2 (e + 1) < pow2 (e + 1 + 1)" using pow2_pos [of "e + 1"] by (simp only: pow2_Suc)
    then have ex: "log2_floor r = e + 1"
      using r_pos by (intro log2_floor_unique) (simp_all add: r)
    have "pow2 (e + 1 - 52) = pow2 (e - 52 + 1)"
      by (rule arg_cong [of _ _ pow2]) simp
    then have u': "pow2 (e + 1 - 52) = 2 * u" by (simp only: pow2_Suc u_def)
    have "r / (2 * u) = of_int (2 ^ 52)" using u_pos by (simp add: m r_def)
    then have "r / pow2 (e + 1 - 52) = of_int (2 ^ 52)" by (simp only: u')
    with r_pos ex have "float_round r = of_int (2 ^ 52) * pow2 (e + 1 - 52)"
      by (rule float_round_pos_eq)
    also have "\<dots> = of_int (2 ^ 52) * (2 * u)" by (simp only: u')
    also have "\<dots> = r" by (simp add: m r_def)
    finally show ?thesis by (simp only: fr)
  qed
qed

lemma float_round_idem: "float_round (float_round q) = float_round q"
proof (cases "q = 0")
  case True
  then show ?thesis by (simp add: float_round_def)
next
  case False
  show ?thesis
  proof (cases "0 < q")
    case True
    then show ?thesis by (rule float_round_idem_pos)
  next
    case neg: False
    with False have "0 < - q" by simp
    then have "float_round (float_round (- q)) = float_round (- q)" by (rule float_round_idem_pos)
    then show ?thesis by (simp add: float_round_minus)
  qed
qed

lemma py_round_nonneg: "0 \<le> q \<Longrightarrow> 0 \<le> py_round q k"
proof -
  assume "0 \<le> q"
  then have "of_int 0 \<le> q * 10 ^ k" by simp
  then have "0 \<le> round_half_even (q * 10 ^ k)" by (rule round_half_even_ge)
  then show ?thesis by (simp add: py_round_def float_round_nonneg)
qed

lemma py_round_le_100: "0 \<le> q \<Longrightarrow> q \<le> 100 \<Longrightarrow> py_round q 2 \<le> 100"
proof -
  assume nonneg: "0 \<le> q" and "q \<le> 100"
  then have "q * 10 ^ 2 \<le> of_int 10000" by simp
  then have "round_half_even (q * 10 ^ 2) \<le> 10000" by (rule round_half_even_le)
  then have "(of_int (round_half_even (q * 10 ^ 2)) :: rat) \<le> of_int 10000"
    by (simp only: of_int_le_iff)
  then have up: "(of_int (round_half_even (q * 10 ^ 2)) :: rat) / 10 ^ 2 \<le> of_int 100" by simp
  from nonneg have "of_int 0 \<le> q * 10 ^ 2" by simp
  then have "0 \<le> round_half_even (q * 10 ^ 2)" by (rule round_half_even_ge)
  then have low: "0 \<le> (of_int (round_half_even (q * 10 ^ 2)) :: rat) / 10 ^ 2" by simp
  have "float_round (of_int (round_half_even (q * 10 ^ 2)) / 10 ^ 2) \<le> of_int 100"
    using low up by (rule float_round_le_int) simp
  then show ?thesis by (simp add: py_round_def)
qed

lemma py_round_0: "py_round 0 k = 0"
  by (simp add: py_round_def round_half_even_def float_round_def)

lemma percent_of_bounds:
  "0 \<le> percent_of a b \<and> (a \<le> b \<longrightarrow> percent_of a b \<le> 100)"
proof (cases "0 < b")
  case False
  then show ?thesis by (simp add: percent_of_def)
next
  case True
  have q0: "(0::rat) \<le> of_nat a / of_nat b" by simp
  have d0: "0 \<le> float_truediv (of_nat a) (of_nat b)"
    unfolding float_truediv_def using q0 by (rule float_round_nonneg)
  then have m0: "0 \<le> float_truediv (of_nat a) (of_nat b) * 100" by simp
  then have low: "0 \<le> float_round (float_truediv (of_nat a) (of_nat b) * 100)"
    by (rule float_round_nonneg)
  have up: "float_round (float_truediv (of_nat a) (of_nat b) * 100) \<le> 100" if "a \<le> b"
  proof -
    from that have "(of_nat a :: rat) \<le> of_nat b" by (simp only: of_nat_le_iff)
    then have q1: "(of_nat a :: rat) / of_nat b \<le> of_int 1"
      using True by (simp add: divide_le_eq)
    have "float_truediv (of_nat a) (of_nat b) \<le> of_int 1"
      unfolding float_truediv_def using q0 q1 by (rule float_round_le_int) simp
    then have m1: "float_truediv (of_nat a) (of_nat b) * 100 \<le> of_int 100" by simp
    have "float_round (float_truediv (of_nat a) (of_nat b) * 100) \<le> of_int 100"
      using m0 m1 by (rule float_round_le_int) simp
    then show ?thesis by simp
  qed
  show ?thesis using True low up by (simp add: percent_of_def float_mul_def)
qed

subsection \<open>The conversion of the user and the filter steps\<close>

lemma reported_by_lookup_rejected:
  "user_rejected db req \<Longrightarrow> reported_by_lookup db (req_user req) = Inl ValueError"
  by (simp add: reported_by_lookup_def)

lemma reported_by_lookup_accepted:
  "\<not> user_rejected db req \<Longrightarrow> reported_by_lookup db (req_user req) = Inr (req_user_id db req)"
  by (auto simp: reported_by_lookup_def split: option.splits)

lemma filter_branch_conv:
  "filter_branch ub qs = filter (\<lambda>ord. \<forall>b. ub = Some b \<longrightarrow> branch ord = Some b) qs"
  by (cases ub) (simp_all add: filter_branch_def)

lemma filter_reported_since_conv:
  "filter_reported_since sd qs = filter (\<lambda>ord. \<forall>s. sd = Some s \<longrightarrow> reported_gte s ord) qs"
  by (cases sd) (simp_all add: filter_reported_since_def)

lemma filter_category_conv:
  "filter_category db c qs = filter (\<lambda>ord. c \<noteq> [] \<longrightarrow> order_category_code db ord = Some c) qs"
  by (simp add: filter_category_def)

lemma filter_user_conv:
  "filter_user u qs = filter (\<lambda>ord. \<forall>x. u = Some x \<longrightarrow> delay_reason_reported_by ord = Some x) qs"
  by (cases u) (simp_all add: filter_user_def)

lemma filter_order_type_conv:
  "filter_order_type t qs = filter (\<lambda>ord. t \<noteq> [] \<longrightarrow> order_type ord = t) qs"
  by (simp add: filter_order_type_def)

lemma in_delayed_view_iff:
  "in_delayed_view db ub sd sc u st ord \<longleftrightarrow>
     delayed ord
     \<and> (\<forall>b. ub = Some b \<longrightarrow> branch ord = Some b)
     \<and> (\<forall>s. sd = Some s \<longrightarrow> reported_gte s ord)
     \<and> (sc \<noteq> [] \<longrightarrow> order_category_code db ord = Some sc)
     \<and> (\<forall>x. u = Some x \<longrightarrow> delay_reason_reported_by ord = Some x)
     \<and> (st \<noteq> [] \<longrightarrow> order_type ord = st)"
  by (auto simp: in_delayed_view_def delayed_def reported_gte_def split: option.splits)

lemma delayed_orders_iff:
  "ord \<in> set (delayed_orders db ub sd sc u st) \<longleftrightarrow>
     ord \<in> set (orders db) \<and> in_delayed_view db ub sd sc u st ord"
  by (auto simp: delayed_orders_def filter_branch_conv filter_reported_since_conv
      filter_category_conv filter_user_conv filter_order_type_conv in_delayed_view_iff)

lemma delayed_orders_view:
  "delayed_orders db ub sd sc u st = filter (in_delayed_view db ub sd sc u st) (orders db)"
  unfolding delayed_orders_def filter_branch_conv filter_reported_since_conv
    filter_category_conv filter_user_conv filter_order_type_conv filter_filter
  by (rule filter_cong) (auto simp: in_delayed_view_iff)

lemma dashboard_orders_qs_view:
  "dashboard_orders_qs db ub sd sc u st = filter (in_delayed_view db ub sd sc u st) (orders db)"
proof (cases ub)
  case None
  then show ?thesis
    unfolding dashboard_orders_qs_def Let_def filter_reported_since_conv
      filter_category_conv filter_user_conv filter_order_type_conv
    by (simp only: option.case filter_filter) (rule filter_cong, auto simp: in_delayed_view_iff)
next
  case (Some b)
  then show ?thesis
    unfolding dashboard_orders_qs_def Let_def filter_reported_since_conv
      filter_category_conv filter_user_conv filter_order_type_conv
    by (simp only: option.case filter_filter) (rule filter_cong, auto simp: in_delayed_view_iff)
qed

lemma delayed_orders_in_period_view:
  "delayed_orders_in_period db ub sd = filter (in_delayed_view db ub sd [] None []) (orders db)"
  unfolding delayed_orders_in_period_def filter_branch_conv filter_reported_since_conv
    filter_filter
  by (rule filter_cong) (auto simp: in_delayed_view_iff)

lemma summary_total_all_orders_view:
  "summary_total_all_orders db ub sd =
     filter (\<lambda>ord. (case ub of None \<Rightarrow> True | Some b \<Rightarrow> branch ord = Some b)
                   \<and> (case sd of None \<Rightarrow> True | Some t \<Rightarrow> t \<le> created_at ord)) (orders db)"
  by (cases ub; cases sd) (simp_all add: summary_total_all_orders_def Let_def)

lemma dashboard_total_orders_view:
  "dashboard_total_orders db ub sd =
     filter (\<lambda>ord. branch ord = ub \<and> status ord = ''completed''
                   \<and> (case delay_reason_reported_at ord of
                         None \<Rightarrow> False
                       | Some t \<Rightarrow> (case sd of None \<Rightarrow> True | Some s \<Rightarrow> s \<le> t))) (orders db)"
  unfolding dashboard_total_orders_def filter_reported_since_conv filter_filter
  by (rule filter_cong) (auto simp: reported_gte_def split: option.splits)

subsection \<open>Dashboard: the caller with no branch\<close>

text \<open>
  C10. For a caller with no branch: when the \<^verbatim>\<open>user\<close> parameter is not empty and the
  integer conversion rejects it, the dashboard ends with \<^verbatim>\<open>ValueError\<close>. Otherwise the
  count of delayed orders is the number of orders of every branch that are delayed and
  pass the filters of the request, while the rate divides that count by the number of
  completed, delay-reported orders of the period whose branch is null: the rate is
  \<^verbatim>\<open>round(count / total_orders * 100, 2)\<close> in floats, 0 when the denominator is 0, and
  so 0 whenever every order has a branch.
\<close>

theorem dashboard_unscoped_caller:
  "(user_rejected db req \<longrightarrow> delay_analytics_dashboard db now None req = Inl ValueError)
   \<and> (\<not> user_rejected db req \<longrightarrow>
        (\<exists>ctx. delay_analytics_dashboard db now None req = Inr ctx
           \<and> ctx_total_delayed_orders ctx
               = length (filter (in_delayed_view db None (req_start_date now req)
                                   (req_category req) (req_user_id db req) (req_order_type req))
                           (orders db))
           \<and> ctx_delay_rate ctx
               = py_round
                   (let total_orders =
                          length (filter (\<lambda>ord. branch ord = None \<and> status ord = ''completed''
                                     \<and> (case delay_reason_reported_at ord of
                                           None \<Rightarrow> False
                                         | Some t \<Rightarrow> (case req_start_date now req of
                                                        None \<Rightarrow> True | Some s \<Rightarrow> s \<le> t)))
                                    (orders db))
                    in if total_orders = 0 then 0
                       else float_mul (float_truediv (of_nat (ctx_total_delayed_orders ctx))
                                         (of_nat total_orders)) 100) 2
           \<and> ((\<forall>ord \<in> set (orders db). branch ord \<noteq> None) \<longrightarrow> ctx_delay_rate ctx = 0)))"
proof (intro conjI impI)
  assume "user_rejected db req"
  then show "delay_analytics_dashboard db now None req = Inl ValueError"
    by (simp add: delay_analytics_dashboard_def Let_def reported_by_lookup_rejected)
next
  assume ok: "\<not> user_rejected db req"
  let ?num = "length (filter (in_delayed_view db None (req_start_date now req)
                 (req_category req) (req_user_id db req) (req_order_type req)) (orders db))"
  let ?den = "length (filter (\<lambda>ord. branch ord = None \<and> status ord = ''completed''
                 \<and> (case delay_reason_reported_at ord of
                       None \<Rightarrow> False
                     | Some t \<Rightarrow> (case req_start_date now req of
                                    None \<Rightarrow> True | Some s \<Rightarrow> s \<le> t))) (orders db))"
  let ?ctx = "\<lparr>ctx_time_period = GET_get (get_period req) ''30days'',
               ctx_selected_category = req_category req,
               ctx_selected_user = req_user req,
               ctx_selected_order_type = req_order_type req,
               ctx_total_delayed_orders = ?num,
               ctx_delay_rate = py_round (percent_of ?num ?den) 2\<rparr>"
  have run: "delay_analytics_dashboard db now None req = Inr ?ctx"
    by (simp add: delay_analytics_dashboard_def Let_def reported_by_lookup_accepted [OF ok]
        dashboard_orders_qs_view dashboard_total_orders_view)
  have rate: "ctx_delay_rate ?ctx
      = py_round (let total_orders = ?den
                  in if total_orders = 0 then 0
                     else float_mul (float_truediv (of_nat (ctx_total_delayed_orders ?ctx))
                                       (of_nat total_orders)) 100) 2"
    by (simp add: percent_of_def Let_def)
  have zero: "ctx_delay_rate ?ctx = 0" if "\<forall>ord \<in> set (orders db). branch ord \<noteq> None"
  proof -
    from that have "?den = 0" by (auto simp: filter_empty_conv)
    then show ?thesis by (simp add: percent_of_def py_round_0)
  qed
  show "\<exists>ctx. delay_analytics_dashboard db now None req = Inr ctx
           \<and> ctx_total_delayed_orders ctx = ?num
           \<and> ctx_delay_rate ctx
               = py_round (let total_orders = ?den
                  in if total_orders = 0 then 0
                     else float_mul (float_truediv (of_nat (ctx_total_delayed_orders ctx))
                                       (of_nat total_orders)) 100) 2
           \<and> ((\<forall>ord \<in> set (orders db). branch ord \<noteq> None) \<longrightarrow> ctx_delay_rate ctx = 0)"
    using run rate zero by (intro exI [of _ ?ctx]) simp
qed

theorem dashboard_unscoped_caller_witness:
  "delay_analytics_dashboard mixed_branches_db 0 None no_params
     = Inr \<lparr>ctx_time_period = ''30days'', ctx_selected_category = [], ctx_selected_user = [],
            ctx_selected_order_type = [], ctx_total_delayed_orders = 3, ctx_delay_rate = 300\<rparr>
   \<and> map branch (orders mixed_branches_db) = [Some 1, Some 2, None]
   \<and> map branch (orders one_branch_db) = [Some 1]
   \<and> (\<exists>ctx. delay_analytics_dashboard one_branch_db 0 None no_params = Inr ctx
          \<and> ctx_total_delayed_orders ctx = 1 \<and> ctx_delay_rate ctx = 0)
   \<and> delay_analytics_dashboard one_branch_db 0 None user_abc = Inl ValueError"
proof -
  have mixed: "delay_analytics_dashboard mixed_branches_db 0 None no_params
     = Inr \<lparr>ctx_time_period = ''30days'', ctx_selected_category = [], ctx_selected_user = [],
            ctx_selected_order_type = [], ctx_total_delayed_orders = 3, ctx_delay_rate = 300\<rparr>"
    by code_simp
  have branches: "map branch (orders mixed_branches_db) = [Some 1, Some 2, None]"
    by code_simp
  have listed: "map branch (orders one_branch_db) = [Some 1]"
    by code_simp
  have accepted: "\<not> user_rejected one_branch_db no_params"
    by code_simp
  have "list_all (\<lambda>ord. branch ord \<noteq> None) (orders one_branch_db)"
    by code_simp
  then have scoped: "\<forall>ord \<in> set (orders one_branch_db). branch ord \<noteq> None"
    by (simp only: list_all_iff)
  have count: "length (filter (in_delayed_view one_branch_db None (req_start_date 0 no_params)
                                 (req_category no_params) (req_user_id one_branch_db no_params)
                                 (req_order_type no_params))
                         (orders one_branch_db)) = 1"
    by code_simp
  have "\<not> user_rejected one_branch_db no_params \<longrightarrow>
        (\<exists>ctx. delay_analytics_dashboard one_branch_db 0 None no_params = Inr ctx
           \<and> ctx_total_delayed_orders ctx
               = length (filter (in_delayed_view one_branch_db None (req_start_date 0 no_params)
                                   (req_category no_params)
                                   (req_user_id one_branch_db no_params)
                                   (req_order_type no_params))
                           (orders one_branch_db))
           \<and> ctx_delay_rate ctx
               = py_round
                   (let total_orders =
                          length (filter (\<lambda>ord. branch ord = None \<and> status ord = ''completed''
                                     \<and> (case delay_reason_reported_at ord of
                                           None \<Rightarrow> False
                                         | Some t \<Rightarrow> (case req_start_date 0 no_params of
                                                        None \<Rightarrow> True | Some s \<Rightarrow> s \<le> t)))
                                    (orders one_branch_db))
                    in if total_orders = 0 then 0
                       else float_mul (float_truediv (of_nat (ctx_total_delayed_orders ctx))
                                         (of_nat total_orders)) 100) 2
           \<and> ((\<forall>ord \<in> set (orders one_branch_db). branch ord \<noteq> None)
                \<longrightarrow> ctx_delay_rate ctx = 0))"
    using dashboard_unscoped_caller
            [where db = one_branch_db and req = no_params and now = 0]
    by (rule conjunct2)
  with accepted scoped obtain ctx
    where "delay_analytics_dashboard one_branch_db 0 None no_params = Inr ctx"
      and "ctx_total_delayed_orders ctx
             = length (filter (in_delayed_view one_branch_db None (req_start_date 0 no_params)
                                 (req_category no_params) (req_user_id one_branch_db no_params)
                                 (req_order_type no_params))
                         (orders one_branch_db))"
      and "ctx_delay_rate ctx = 0"
    by blast
  then have one: "\<exists>ctx. delay_analytics_dashboard one_branch_db 0 None no_params = Inr ctx
                     \<and> ctx_total_delayed_orders ctx = 1 \<and> ctx_delay_rate ctx = 0"
    unfolding count by blast
  have refused: "user_rejected one_branch_db user_abc"
    by code_simp
  have "delay_analytics_dashboard one_branch_db 0 None user_abc = Inl ValueError"
    using dashboard_unscoped_caller [where db = one_branch_db and req = user_abc and now = 0]
      refused
    by blast
  with mixed branches listed one show ?thesis by (intro conjI)
qed

subsection \<open>Summary: the delay percentage\<close>

lemma summary_run:
  assumes "\<not> user_rejected db req"
  shows "\<exists>s. api_delay_analytics_summary db now user_branch req = Inr s
           \<and> sm_total_delayed_orders s
               = length (remdups (filter (in_delayed_view db user_branch (req_start_date now req)
                                            (req_category req) (req_user_id db req)
                                            (req_order_type req)) (orders db)))
           \<and> sm_total_all_orders s
               = length (filter (\<lambda>ord. (case user_branch of
                                          None \<Rightarrow> True | Some b \<Rightarrow> branch ord = Some b)
                                      \<and> (case req_start_date now req of
                                            None \<Rightarrow> True | Some t \<Rightarrow> t \<le> created_at ord))
                           (orders db))
           \<and> sm_delay_percentage s
               = py_round (percent_of (sm_total_delayed_orders s) (sm_total_all_orders s)) 2"
  by (simp add: api_delay_analytics_summary_def Let_def reported_by_lookup_accepted [OF assms]
      delayed_orders_view summary_total_all_orders_view split: prod.splits)

text \<open>
  C1 as stated does not hold. With one delayed, completed order and one order that is
  neither, the summary reports 50 percent: it divides by the two orders of the period.
  The baseline of the specification, the completed orders with a delay-report timestamp,
  counts one order, and the quotient by it is 100 percent.
\<close>

theorem summary_spec_baseline_counterexample:
  "api_delay_analytics_summary half_delayed_db 0 None all_periods
     = Inr \<lparr>sm_total_delayed_orders = 1, sm_total_all_orders = 2, sm_delay_percentage = 50,
            sm_exceeded_2_hours = 0, sm_average_hours = 0\<rparr>
   \<and> spec_summary_baseline half_delayed_db None (req_start_date 0 all_periods) = 1
   \<and> float_mul (float_truediv 1 (of_nat (spec_summary_baseline half_delayed_db None
                                            (req_start_date 0 all_periods)))) 100 = 100"
  by code_simp

text \<open>
  C1, amended. When the \<^verbatim>\<open>user\<close> parameter is not empty and the integer conversion
  rejects it, the summary ends with \<^verbatim>\<open>ValueError\<close>. Otherwise \<^verbatim>\<open>total_delayed_orders\<close>
  is the number of distinct delayed orders of the filtered view, \<^verbatim>\<open>total_all_orders\<close>
  is the number of all orders of the caller's scope created in the period (of any status,
  delayed or not; every order of the scope when the period is \<^verbatim>\<open>all\<close>), and the
  percentage is \<^verbatim>\<open>round(total_delayed_orders / total_all_orders * 100, 2)\<close> in floats,
  and 0 when \<^verbatim>\<open>total_all_orders\<close> is 0.
\<close>

theorem summary_delay_percentage_denominator:
  "(user_rejected db req \<longrightarrow> api_delay_analytics_summary db now user_branch req = Inl ValueError)
   \<and> (\<not> user_rejected db req \<longrightarrow>
        (\<exists>s. api_delay_analytics_summary db now user_branch req = Inr s
           \<and> sm_total_delayed_orders s
               = length (remdups (filter (in_delayed_view db user_branch (req_start_date now req)
                                            (req_category req) (req_user_id db req)
                                            (req_order_type req)) (orders db)))
           \<and> sm_total_all_orders s
               = length (filter (\<lambda>ord. (case user_branch of
                                          None \<Rightarrow> True | Some b \<Rightarrow> branch ord = Some b)
                                      \<and> (case req_start_date now req of
                                            None \<Rightarrow> True | Some t \<Rightarrow> t \<le> created_at ord))
                           (orders db))
           \<and> sm_delay_percentage s
               = py_round (if sm_total_all_orders s = 0 then 0
                           else float_mul (float_truediv (of_nat (sm_total_delayed_orders s))
                                             (of_nat (sm_total_all_orders s))) 100) 2))"
proof (intro conjI impI)
  assume "user_rejected db req"
  then show "api_delay_analytics_summary db now user_branch req = Inl ValueError"
    by (simp add: api_delay_analytics_summary_def Let_def reported_by_lookup_rejected)
next
  assume "\<not> user_rejected db req"
  from summary_run [OF this, of now user_branch]
  show "\<exists>s. api_delay_analytics_summary db now user_branch req = Inr s
           \<and> sm_total_delayed_orders s
               = length (remdups (filter (in_delayed_view db user_branch (req_start_date now req)
                                            (req_category req) (req_user_id db req)
                                            (req_order_type req)) (orders db)))
           \<and> sm_total_all_orders s
               = length (filter (\<lambda>ord. (case user_branch of
                                          None \<Rightarrow> True | Some b \<Rightarrow> branch ord = Some b)
                                      \<and> (case req_start_date now req of
                                            None \<Rightarrow> True | Some t \<Rightarrow> t \<le> created_at ord))
                           (orders db))
           \<and> sm_delay_percentage s
               = py_round (if sm_total_all_orders s = 0 then 0
                           else float_mul (float_truediv (of_nat (sm_total_delayed_orders s))
                                             (of_nat (sm_total_all_orders s))) 100) 2"
    by (auto simp: percent_of_def)
qed

theorem summary_delay_percentage_denominator_witness:
  "api_delay_analytics_summary many_orders_db 0 None all_periods
     = Inr \<lparr>sm_total_delayed_orders = 23, sm_total_all_orders = 160,
            sm_delay_percentage = float_round (1437 / 100),
            sm_exceeded_2_hours = 0, sm_average_hours = 0\<rparr>
   \<and> length (orders many_orders_db) = 160
   \<and> length (remdups (filter (in_delayed_view many_orders_db None
                                (req_start_date 0 all_periods) (req_category all_periods)
                                (req_user_id many_orders_db all_periods)
                                (req_order_type all_periods))
                         (orders many_orders_db))) = 23
   \<and> api_delay_analytics_summary many_orders_db 0 None user_abc = Inl ValueError"
proof -
  have run: "api_delay_analytics_summary many_orders_db 0 None all_periods
     = Inr \<lparr>sm_total_delayed_orders = 23, sm_total_all_orders = 160,
            sm_delay_percentage = float_round (1437 / 100),
            sm_exceeded_2_hours = 0, sm_average_hours = 0\<rparr>"
    by code_simp
  have size: "length (orders many_orders_db) = 160"
    by code_simp
  have accepted: "\<not> user_rejected many_orders_db all_periods"
    by code_simp
  from summary_delay_percentage_denominator
         [where db = many_orders_db and req = all_periods and now = 0 and user_branch = None]
       accepted
  obtain s where s: "api_delay_analytics_summary many_orders_db 0 None all_periods = Inr s"
    and delayed: "sm_total_delayed_orders s
                    = length (remdups (filter (in_delayed_view many_orders_db None
                                                 (req_start_date 0 all_periods)
                                                 (req_category all_periods)
                                                 (req_user_id many_orders_db all_periods)
                                                 (req_order_type all_periods))
                                         (orders many_orders_db)))"
    by blast
  from s run have "sm_total_delayed_orders s = 23" by auto
  with delayed have view: "length (remdups (filter (in_delayed_view many_orders_db None
                                                 (req_start_date 0 all_periods)
                                                 (req_category all_periods)
                                                 (req_user_id many_orders_db all_periods)
                                                 (req_order_type all_periods))
                                         (orders many_orders_db))) = 23"
    by simp
  have refused: "user_rejected many_orders_db user_abc"
    by code_simp
  have "api_delay_analytics_summary many_orders_db 0 None user_abc = Inl ValueError"
    using summary_delay_percentage_denominator
            [where db = many_orders_db and req = user_abc and now = 0 and user_branch = None]
          refused
    by blast
  with run size view show ?thesis by (intro conjI)
qed

text \<open>
  C2 as stated does not hold. Two delayed orders created 50 days before the request and
  reported the day before it are in the 30-day view, one order was created in those
  30 days: the percentage is 200.
\<close>

theorem summary_delay_percentage_above_100_counterexample:
  "api_delay_analytics_summary late_reports_db (timedelta_days 100) None no_params
     = Inr \<lparr>sm_total_delayed_orders = 2, sm_total_all_orders = 1, sm_delay_percentage = 200,
            sm_exceeded_2_hours = 0, sm_average_hours = 0\<rparr>"
  by code_simp

text \<open>
  C2, amended. When the \<^verbatim>\<open>user\<close> parameter is not empty and the integer conversion
  rejects it, the summary ends with \<^verbatim>\<open>ValueError\<close>. Otherwise it returns a response
  whose percentage is at least 0, is 0 when \<^verbatim>\<open>total_all_orders\<close> is 0, and is at most
  100 when every delayed order of the filtered view was created in the period, which is
  so for the period \<^verbatim>\<open>all\<close>.
\<close>

theorem summary_delay_percentage_bounds:
  "(user_rejected db req \<longrightarrow> api_delay_analytics_summary db now user_branch req = Inl ValueError)
   \<and> (\<not> user_rejected db req \<longrightarrow>
        (\<exists>s. api_delay_analytics_summary db now user_branch req = Inr s
           \<and> 0 \<le> sm_delay_percentage s
           \<and> (sm_total_all_orders s = 0 \<longrightarrow> sm_delay_percentage s = 0)
           \<and> ((\<forall>ord \<in> set (orders db).
                  in_delayed_view db user_branch (req_start_date now req) (req_category req)
                    (req_user_id db req) (req_order_type req) ord
                  \<longrightarrow> (case req_start_date now req of
                         None \<Rightarrow> True | Some t \<Rightarrow> t \<le> created_at ord))
               \<longrightarrow> sm_delay_percentage s \<le> 100)
           \<and> (get_period req = Some ''all'' \<longrightarrow> sm_delay_percentage s \<le> 100)))"
proof (intro conjI impI)
  assume "user_rejected db req"
  then show "api_delay_analytics_summary db now user_branch req = Inl ValueError"
    by (simp add: api_delay_analytics_summary_def Let_def reported_by_lookup_rejected)
next
  assume ok: "\<not> user_rejected db req"
  let ?view = "filter (in_delayed_view db user_branch (req_start_date now req)
                 (req_category req) (req_user_id db req) (req_order_type req)) (orders db)"
  let ?all = "filter (\<lambda>ord. (case user_branch of None \<Rightarrow> True | Some b \<Rightarrow> branch ord = Some b)
                           \<and> (case req_start_date now req of
                                 None \<Rightarrow> True | Some t \<Rightarrow> t \<le> created_at ord)) (orders db)"
  from summary_run [OF ok, of now user_branch] obtain s where
    run: "api_delay_analytics_summary db now user_branch req = Inr s"
    and td: "sm_total_delayed_orders s = length (remdups ?view)"
    and ta: "sm_total_all_orders s = length ?all"
    and dp: "sm_delay_percentage s
               = py_round (percent_of (sm_total_delayed_orders s) (sm_total_all_orders s)) 2"
    by blast
  have nonneg: "0 \<le> sm_delay_percentage s"
    using percent_of_bounds [of "sm_total_delayed_orders s" "sm_total_all_orders s"]
    by (simp add: dp py_round_nonneg)
  have zero: "sm_delay_percentage s = 0" if "sm_total_all_orders s = 0"
    using that by (simp add: dp percent_of_def py_round_0)
  have le: "sm_delay_percentage s \<le> 100"
    if created: "\<forall>ord \<in> set (orders db).
                  in_delayed_view db user_branch (req_start_date now req) (req_category req)
                    (req_user_id db req) (req_order_type req) ord
                  \<longrightarrow> (case req_start_date now req of
                         None \<Rightarrow> True | Some t \<Rightarrow> t \<le> created_at ord)"
  proof -
    have "set ?view \<subseteq> set ?all"
    proof
      fix ord
      assume "ord \<in> set ?view"
      then have row: "ord \<in> set (orders db)"
        and member: "in_delayed_view db user_branch (req_start_date now req) (req_category req)
                       (req_user_id db req) (req_order_type req) ord"
        by simp_all
      from created row member
      have "case req_start_date now req of None \<Rightarrow> True | Some t \<Rightarrow> t \<le> created_at ord"
        by blast
      moreover from member
      have "case user_branch of None \<Rightarrow> True | Some b \<Rightarrow> branch ord = Some b"
        by (simp add: in_delayed_view_def)
      ultimately show "ord \<in> set ?all" using row by simp
    qed
    then have "card (set ?view) \<le> card (set ?all)" by (simp add: card_mono)
    also have "\<dots> \<le> length ?all" by (rule card_length)
    finally have "sm_total_delayed_orders s \<le> sm_total_all_orders s"
      by (simp add: td ta length_remdups_card_conv)
    then have "percent_of (sm_total_delayed_orders s) (sm_total_all_orders s) \<le> 100"
      using percent_of_bounds [of "sm_total_delayed_orders s" "sm_total_all_orders s"] by simp
    moreover have "0 \<le> percent_of (sm_total_delayed_orders s) (sm_total_all_orders s)"
      using percent_of_bounds [of "sm_total_delayed_orders s" "sm_total_all_orders s"] by simp
    ultimately show ?thesis by (simp add: dp py_round_le_100)
  qed
  have all: "sm_delay_percentage s \<le> 100" if "get_period req = Some ''all''"
  proof (rule le)
    from that have "req_start_date now req = None"
      by (simp add: GET_get_def get_start_date_from_period_def period_map_def)
    then show "\<forall>ord \<in> set (orders db).
                  in_delayed_view db user_branch (req_start_date now req) (req_category req)
                    (req_user_id db req) (req_order_type req) ord
                  \<longrightarrow> (case req_start_date now req of
                         None \<Rightarrow> True | Some t \<Rightarrow> t \<le> created_at ord)"
      by simp
  qed
  show "\<exists>s. api_delay_analytics_summary db now user_branch req = Inr s
           \<and> 0 \<le> sm_delay_percentage s
           \<and> (sm_total_all_orders s = 0 \<longrightarrow> sm_delay_percentage s = 0)
           \<and> ((\<forall>ord \<in> set (orders db).
                  in_delayed_view db user_branch (req_start_date now req) (req_category req)
                    (req_user_id db req) (req_order_type req) ord
                  \<longrightarrow> (case req_start_date now req of
                         None \<Rightarrow> True | Some t \<Rightarrow> t \<le> created_at ord))
               \<longrightarrow> sm_delay_percentage s \<le> 100)
           \<and> (get_period req = Some ''all'' \<longrightarrow> sm_delay_percentage s \<le> 100)"
  proof (intro exI [of _ s] conjI impI)
    show "api_delay_analytics_summary db now user_branch req = Inr s" by (rule run)
    show "0 \<le> sm_delay_percentage s" by (rule nonneg)
    show "sm_delay_percentage s = 0" if "sm_total_all_orders s = 0" using that by (rule zero)
    show "sm_delay_percentage s \<le> 100"
      if "\<forall>ord \<in> set (orders db).
            in_delayed_view db user_branch (req_start_date now req) (req_category req)
              (req_user_id db req) (req_order_type req) ord
            \<longrightarrow> (case req_start_date now req of
                   None \<Rightarrow> True | Some t \<Rightarrow> t \<le> created_at ord)"
      using that by (rule le)
    show "sm_delay_percentage s \<le> 100" if "get_period req = Some ''all''"
      using that by (rule all)
  qed
qed

theorem summary_delay_percentage_bounds_witness:
  "api_delay_analytics_summary half_delayed_db 0 (Some 1) all_periods
     = Inr \<lparr>sm_total_delayed_orders = 0, sm_total_all_orders = 0, sm_delay_percentage = 0,
            sm_exceeded_2_hours = 0, sm_average_hours = 0\<rparr>
   \<and> get_period all_periods = Some ''all''
   \<and> api_delay_analytics_summary half_delayed_db 0 None all_periods
     = Inr \<lparr>sm_total_delayed_orders = 1, sm_total_all_orders = 2, sm_delay_percentage = 50,
            sm_exceeded_2_hours = 0, sm_average_hours = 0\<rparr>
   \<and> (\<exists>s. api_delay_analytics_summary half_delayed_db 0 None all_periods = Inr s
          \<and> 0 \<le> sm_delay_percentage s \<and> sm_delay_percentage s \<le> 100)
   \<and> api_delay_analytics_summary half_delayed_db 0 None user_abc = Inl ValueError"
proof -
  have empty_scope: "api_delay_analytics_summary half_delayed_db 0 (Some 1) all_periods
     = Inr \<lparr>sm_total_delayed_orders = 0, sm_total_all_orders = 0, sm_delay_percentage = 0,
            sm_exceeded_2_hours = 0, sm_average_hours = 0\<rparr>"
    by code_simp
  have period: "get_period all_periods = Some ''all''"
    by code_simp
  have half: "api_delay_analytics_summary half_delayed_db 0 None all_periods
     = Inr \<lparr>sm_total_delayed_orders = 1, sm_total_all_orders = 2, sm_delay_percentage = 50,
            sm_exceeded_2_hours = 0, sm_average_hours = 0\<rparr>"
    by code_simp
  have accepted: "\<not> user_rejected half_delayed_db all_periods"
    by code_simp
  have bounded: "\<exists>s. api_delay_analytics_summary half_delayed_db 0 None all_periods = Inr s
                    \<and> 0 \<le> sm_delay_percentage s \<and> sm_delay_percentage s \<le> 100"
    using summary_delay_percentage_bounds
            [where db = half_delayed_db and req = all_periods and now = 0 and user_branch = None]
          accepted period
    by blast
  have refused: "user_rejected half_delayed_db user_abc"
    by code_simp
  have "api_delay_analytics_summary half_delayed_db 0 None user_abc = Inl ValueError"
    using summary_delay_percentage_bounds
            [where db = half_delayed_db and req = user_abc and now = 0 and user_branch = None]
          refused
    by blast
  with empty_scope period half bounded show ?thesis by (intro conjI)
qed

subsection \<open>All delay reasons\<close>

lemma group_count_nonempty: "qs \<noteq> [] \<Longrightarrow> group_count key qs \<noteq> []"
  by (simp add: group_count_def)

lemma order_by_count_desc_nonempty: "rows \<noteq> [] \<Longrightarrow> order_by_count_desc rows \<noteq> []"
proof -
  assume "rows \<noteq> []"
  then have "length (order_by_count_desc rows) \<noteq> 0" by (simp add: order_by_count_desc_def)
  then show ?thesis by simp
qed

text \<open>
  C8 as stated does not hold. With \<^verbatim>\<open>user=abc\<close> and no order at all, so that no delayed
  order matches, the listing ends with \<^verbatim>\<open>ValueError\<close>.
\<close>

theorem all_reasons_rejected_user_counterexample:
  "orders (sample_db []) = []
   \<and> api_all_delay_reasons (sample_db []) 0 None user_abc = Inl ValueError"
  by code_simp

text \<open>
  C8, amended. When the \<^verbatim>\<open>user\<close> parameter is not empty and the integer conversion
  rejects it, the listing of all reasons ends with \<^verbatim>\<open>ValueError\<close>. When the parameter
  is empty or converted and no delayed order passes the filters, the listing is a success
  response with an empty data list, the total 0 and the message
  \<^verbatim>\<open>No delay reasons submitted in the selected period.\<close> And when some delayed order
  passes the filters, the listing is a success response with a data list that is not
  empty and the number of these orders as its total.
\<close>

theorem all_reasons_empty_listing:
  "(user_rejected db req \<longrightarrow> api_all_delay_reasons db now user_branch req = Inl ValueError)
   \<and> (\<not> user_rejected db req
        \<and> filter (in_delayed_view db user_branch (req_start_date now req) (req_category req)
                    (req_user_id db req) (req_order_type req)) (orders db) = []
      \<longrightarrow> api_all_delay_reasons db now user_branch req
            = Inr \<lparr>ar_success = True, ar_data = [], ar_total = 0,
                   ar_message = ''No delay reasons submitted in the selected period.''\<rparr>)
   \<and> (\<not> user_rejected db req
        \<and> filter (in_delayed_view db user_branch (req_start_date now req) (req_category req)
                    (req_user_id db req) (req_order_type req)) (orders db) \<noteq> []
      \<longrightarrow> (\<exists>r. api_all_delay_reasons db now user_branch req = Inr r
                \<and> ar_success r \<and> ar_data r \<noteq> []
                \<and> ar_total r
                    = length (filter (in_delayed_view db user_branch (req_start_date now req)
                                        (req_category req) (req_user_id db req)
                                        (req_order_type req)) (orders db))))"
proof (intro conjI impI)
  assume "user_rejected db req"
  then show "api_all_delay_reasons db now user_branch req = Inl ValueError"
    by (simp add: api_all_delay_reasons_def Let_def reported_by_lookup_rejected)
next
  assume "\<not> user_rejected db req
        \<and> filter (in_delayed_view db user_branch (req_start_date now req) (req_category req)
                    (req_user_id db req) (req_order_type req)) (orders db) = []"
  then show "api_all_delay_reasons db now user_branch req
            = Inr \<lparr>ar_success = True, ar_data = [], ar_total = 0,
                   ar_message = ''No delay reasons submitted in the selected period.''\<rparr>"
    by (simp add: api_all_delay_reasons_def Let_def reported_by_lookup_accepted
        delayed_orders_view)
next
  let ?view = "filter (in_delayed_view db user_branch (req_start_date now req) (req_category req)
                    (req_user_id db req) (req_order_type req)) (orders db)"
  assume a: "\<not> user_rejected db req \<and> ?view \<noteq> []"
  then have rows: "order_by_count_desc
            (group_count (\<lambda>ord. (delay_reason ord, order_reason_text db ord,
                                  order_category_code db ord)) ?view) \<noteq> []"
    by (intro order_by_count_desc_nonempty group_count_nonempty) simp
  from a have len: "length ?view \<noteq> 0" by simp
  show "\<exists>r. api_all_delay_reasons db now user_branch req = Inr r
                \<and> ar_success r \<and> ar_data r \<noteq> [] \<and> ar_total r = length ?view"
    using a rows len
    by (simp add: api_all_delay_reasons_def Let_def reported_by_lookup_accepted
        delayed_orders_view)
qed

theorem all_reasons_empty_listing_witness:
  "api_all_delay_reasons (sample_db [delayed_order 1 1 0]) 0 (Some 3)
     \<lparr>get_period = None, get_category = Some ''logistics'', get_user = Some ''7'',
      get_order_type = Some ''sales''\<rparr>
     = Inr \<lparr>ar_success = True, ar_data = [], ar_total = 0,
            ar_message = ''No delay reasons submitted in the selected period.''\<rparr>
   \<and> api_all_delay_reasons (sample_db [delayed_order 1 1 0]) 0 None user_abc = Inl ValueError"
proof -
  let ?db = "sample_db [delayed_order 1 1 0]"
  let ?req = "\<lparr>get_period = None, get_category = Some ''logistics'', get_user = Some ''7'',
               get_order_type = Some ''sales''\<rparr>"
  have accepted: "\<not> user_rejected ?db ?req"
    by code_simp
  have "list_all (\<lambda>ord. \<not> in_delayed_view ?db (Some 3) (req_start_date 0 ?req)
                           (req_category ?req) (req_user_id ?db ?req) (req_order_type ?req) ord)
          (orders ?db)"
    by code_simp
  then have none: "filter (in_delayed_view ?db (Some 3) (req_start_date 0 ?req)
                           (req_category ?req) (req_user_id ?db ?req) (req_order_type ?req))
                     (orders ?db) = []"
    by (simp only: filter_empty_conv list_all_iff)
  have empty: "api_all_delay_reasons ?db 0 (Some 3) ?req
     = Inr \<lparr>ar_success = True, ar_data = [], ar_total = 0,
            ar_message = ''No delay reasons submitted in the selected period.''\<rparr>"
    using all_reasons_empty_listing
            [where db = ?db and req = ?req and now = 0 and user_branch = "Some 3"]
          accepted none
    by blast
  have refused: "user_rejected ?db user_abc"
    by code_simp
  have "api_all_delay_reasons ?db 0 None user_abc = Inl ValueError"
    using all_reasons_empty_listing
            [where db = ?db and req = user_abc and now = 0 and user_branch = None]
          refused
    by blast
  with empty show ?thesis by simp
qed

subsection \<open>Recommendations: cap and order\<close>

lemma length_analysis_1: "length (analysis_1 db qs) \<le> 1"
  by (simp add: analysis_1_def Let_def split: list.splits)

lemma length_analysis_2: "length (analysis_2 qs) \<le> 1"
  by (simp add: analysis_2_def Let_def)

lemma length_analysis_3: "length (analysis_3 db qs) \<le> 3"
  by (simp add: analysis_3_def Let_def)

lemma length_analysis_4: "length (analysis_4 qs) \<le> 1"
  by (simp add: analysis_4_def Let_def)

lemma length_emitted_recommendations:
  "length (emitted_recommendations db now user_branch req) \<le> 6"
proof -
  let ?qs = "recommendations_orders_qs db now user_branch req"
  show ?thesis
    using length_analysis_1 [of db ?qs] length_analysis_2 [of ?qs]
      length_analysis_3 [of db ?qs] length_analysis_4 [of ?qs]
    by (simp add: emitted_recommendations_def Let_def)
qed

lemma api_delay_recommendations_sort:
  "api_delay_recommendations db now user_branch req =
     sort_key (\<lambda>x. priority_order (rc_priority x))
       (emitted_recommendations db now user_branch req)"
  using length_emitted_recommendations [of db now user_branch req]
  by (simp add: api_delay_recommendations_def)

lemma emitted_priority:
  "x \<in> set (emitted_recommendations db now user_branch req) \<Longrightarrow>
     rc_priority x = ''high'' \<or> rc_priority x = ''medium''"
  by (auto simp: emitted_recommendations_def Let_def analysis_1_def analysis_2_def
      analysis_3_def analysis_4_def split: list.splits if_splits)

lemma insort_key_after_smaller:
  "\<forall>y \<in> set ys. f y < f x \<Longrightarrow> insort_key f x (ys @ zs) = ys @ insort_key f x zs"
  by (induction ys) auto

lemma sort_key_two_ranks:
  fixes f :: "'a \<Rightarrow> nat"
  assumes "\<forall>x \<in> set xs. f x = 0 \<or> f x = 1"
  shows "sort_key f xs = filter (\<lambda>x. f x = 0) xs @ filter (\<lambda>x. f x = 1) xs"
  using assms
proof (induction xs)
  case Nil
  then show ?case by simp
next
  case (Cons x xs)
  then have ih: "sort_key f xs = filter (\<lambda>x. f x = 0) xs @ filter (\<lambda>x. f x = 1) xs"
    by simp
  from Cons.prems have "f x = 0 \<or> f x = 1" by simp
  then show ?case
  proof
    assume zero: "f x = 0"
    then have "insort_key f x (sort_key f xs) = x # sort_key f xs"
      by (intro insort_is_Cons) simp
    with zero ih show ?thesis by simp
  next
    assume one: "f x = 1"
    have "insort_key f x (filter (\<lambda>x. f x = 0) xs @ filter (\<lambda>x. f x = 1) xs)
            = filter (\<lambda>x. f x = 0) xs @ insort_key f x (filter (\<lambda>x. f x = 1) xs)"
      by (rule insort_key_after_smaller) (simp add: one)
    moreover have "insort_key f x (filter (\<lambda>x. f x = 1) xs) = x # filter (\<lambda>x. f x = 1) xs"
      by (intro insort_is_Cons) (simp add: one)
    ultimately show ?thesis using one ih by simp
  qed
qed

text \<open>
  C6. The recommendations of a response are at most 8, and they are the emitted records of
  priority \<^verbatim>\<open>high\<close> in the order of their emission, followed by the emitted records of
  priority \<^verbatim>\<open>medium\<close> in the order of their emission, followed by those of priority
  \<^verbatim>\<open>low\<close> in the order of their emission.
\<close>

theorem recommendations_capped_and_stably_sorted:
  "length (api_delay_recommendations db now user_branch req) \<le> 8
   \<and> api_delay_recommendations db now user_branch req
       = filter (\<lambda>x. rc_priority x = ''high'') (emitted_recommendations db now user_branch req)
         @ filter (\<lambda>x. rc_priority x = ''medium'')
             (emitted_recommendations db now user_branch req)
         @ filter (\<lambda>x. rc_priority x = ''low'')
             (emitted_recommendations db now user_branch req)"
proof -
  let ?E = "emitted_recommendations db now user_branch req"
  let ?f = "\<lambda>x. priority_order (rc_priority x)"
  have ranks: "\<forall>x \<in> set ?E. ?f x = 0 \<or> ?f x = 1"
  proof
    fix x
    assume "x \<in> set ?E"
    then have "rc_priority x = ''high'' \<or> rc_priority x = ''medium''"
      by (rule emitted_priority)
    then show "?f x = 0 \<or> ?f x = 1" by (auto simp: priority_order_def)
  qed
  have high: "filter (\<lambda>x. ?f x = 0) ?E = filter (\<lambda>x. rc_priority x = ''high'') ?E"
  proof (rule filter_cong [OF refl])
    fix x
    assume "x \<in> set ?E"
    then have "rc_priority x = ''high'' \<or> rc_priority x = ''medium''"
      by (rule emitted_priority)
    then show "(?f x = 0) = (rc_priority x = ''high'')" by (auto simp: priority_order_def)
  qed
  have medium: "filter (\<lambda>x. ?f x = 1) ?E = filter (\<lambda>x. rc_priority x = ''medium'') ?E"
  proof (rule filter_cong [OF refl])
    fix x
    assume "x \<in> set ?E"
    then have "rc_priority x = ''high'' \<or> rc_priority x = ''medium''"
      by (rule emitted_priority)
    then show "(?f x = 1) = (rc_priority x = ''medium'')" by (auto simp: priority_order_def)
  qed
  have low: "filter (\<lambda>x. rc_priority x = ''low'') ?E = []"
    by (auto simp: filter_empty_conv dest!: emitted_priority)
  have "api_delay_recommendations db now user_branch req = sort_key ?f ?E"
    by (rule api_delay_recommendations_sort)
  also have "\<dots> = filter (\<lambda>x. ?f x = 0) ?E @ filter (\<lambda>x. ?f x = 1) ?E"
    using ranks by (rule sort_key_two_ranks)
  finally have shape: "api_delay_recommendations db now user_branch req
       = filter (\<lambda>x. rc_priority x = ''high'') ?E @ filter (\<lambda>x. rc_priority x = ''medium'') ?E
         @ filter (\<lambda>x. rc_priority x = ''low'') ?E"
    by (simp only: high medium low append_Nil2)
  have "length (api_delay_recommendations db now user_branch req) \<le> 8"
    using length_emitted_recommendations [of db now user_branch req]
    by (simp add: api_delay_recommendations_sort)
  with shape show ?thesis by (intro conjI)
qed

theorem recommendations_capped_and_stably_sorted_witness:
  "map rc_priority (emitted_recommendations medium_before_high_db 0 None no_params)
     = [''high'', ''medium'', ''medium'', ''medium'', ''high'']
   \<and> map rc_category (emitted_recommendations medium_before_high_db 0 None no_params)
     = [''Process Improvement'', ''Urgent'', ''Root Cause Analysis'', ''Root Cause Analysis'',
        ''Trend'']
   \<and> map rc_category (api_delay_recommendations medium_before_high_db 0 None no_params)
     = [''Process Improvement'', ''Trend'', ''Urgent'', ''Root Cause Analysis'',
        ''Root Cause Analysis'']"
proof -
  let ?E = "emitted_recommendations medium_before_high_db 0 None no_params"
  have priorities: "map rc_priority ?E = [''high'', ''medium'', ''medium'', ''medium'', ''high'']"
    by code_simp
  have categories: "map rc_category ?E
     = [''Process Improvement'', ''Urgent'', ''Root Cause Analysis'', ''Root Cause Analysis'',
        ''Trend'']"
    by code_simp
  have parts: "map rc_category (filter (\<lambda>x. rc_priority x = ''high'') ?E
                 @ filter (\<lambda>x. rc_priority x = ''medium'') ?E
                 @ filter (\<lambda>x. rc_priority x = ''low'') ?E)
     = [''Process Improvement'', ''Trend'', ''Urgent'', ''Root Cause Analysis'',
        ''Root Cause Analysis'']"
    by code_simp
  have "api_delay_recommendations medium_before_high_db 0 None no_params
          = filter (\<lambda>x. rc_priority x = ''high'') ?E
            @ filter (\<lambda>x. rc_priority x = ''medium'') ?E
            @ filter (\<lambda>x. rc_priority x = ''low'') ?E"
    using recommendations_capped_and_stably_sorted [of medium_before_high_db 0 None no_params]
    by (rule conjunct2)
  with priorities categories parts show ?thesis by simp
qed

subsection \<open>Recommendations: the dominant category\<close>

text \<open>
  C7. The first analysis runs over the delayed orders of the caller's scope and of the
  period, and it groups them by the category code of their reason, the orders whose
  reason has no category under the code \<^verbatim>\<open>None\<close>. With two such orders and one
  mechanical order in the period (one of three, more than 30 percent), the row of
  \<^verbatim>\<open>None\<close> comes first, and the record of category \<^verbatim>\<open>Process Improvement\<close> names
  \<^verbatim>\<open>None\<close>, not the mechanical category.
\<close>

theorem dominant_category_uncategorised_orders:
  "recommendations_orders_qs db now user_branch req
     = filter (in_delayed_view db user_branch (req_start_date now req) [] None []) (orders db)
   \<and> map order_id (orders uncategorised_db) = [1, 2, 3, 4, 5]
   \<and> map order_id (recommendations_orders_qs uncategorised_db 0 None no_params) = [1, 2, 3]
   \<and> map (order_category_code uncategorised_db)
        (recommendations_orders_qs uncategorised_db 0 None no_params)
     = [None, None, Some ''mechanical'']
   \<and> category_counts uncategorised_db (recommendations_orders_qs uncategorised_db 0 None no_params)
     = [(None, 2), (Some ''mechanical'', 1)]
   \<and> map (\<lambda>x. (rc_priority x, rc_category x, rc_title x))
        (api_delay_recommendations uncategorised_db 0 None no_params)
     = [(''high'', ''Process Improvement'', ''Address None Issues''),
        (''high'', ''Trend'', ''Increasing Delay Incidents''),
        (''medium'', ''Root Cause Analysis'', ''Investigate: Other''),
        (''medium'', ''Root Cause Analysis'', ''Investigate: Waiting for parts'')]
   \<and> rc_description (hd (api_delay_recommendations uncategorised_db 0 None no_params))
     = ''None accounts for 66.7% of delays. Consider process improvements or resource allocation.''"
proof (intro conjI)
  show "recommendations_orders_qs db now user_branch req
     = filter (in_delayed_view db user_branch (req_start_date now req) [] None []) (orders db)"
    by (simp add: recommendations_orders_qs_def delayed_orders_in_period_view)
  show "map order_id (orders uncategorised_db) = [1, 2, 3, 4, 5]"
    by code_simp
  show "map order_id (recommendations_orders_qs uncategorised_db 0 None no_params) = [1, 2, 3]"
    by code_simp
  show "map (order_category_code uncategorised_db)
        (recommendations_orders_qs uncategorised_db 0 None no_params)
     = [None, None, Some ''mechanical'']"
    by code_simp
  show "category_counts uncategorised_db
          (recommendations_orders_qs uncategorised_db 0 None no_params)
     = [(None, 2), (Some ''mechanical'', 1)]"
    by code_simp
  show "map (\<lambda>x. (rc_priority x, rc_category x, rc_title x))
        (api_delay_recommendations uncategorised_db 0 None no_params)
     = [(''high'', ''Process Improvement'', ''Address None Issues''),
        (''high'', ''Trend'', ''Increasing Delay Incidents''),
        (''medium'', ''Root Cause Analysis'', ''Investigate: Other''),
        (''medium'', ''Root Cause Analysis'', ''Investigate: Waiting for parts'')]"
    by code_simp
  show "rc_description (hd (api_delay_recommendations uncategorised_db 0 None no_params))
     = ''None accounts for 66.7% of delays. Consider process improvements or resource allocation.''"
    by code_simp
qed

subsection \<open>Impact analysis: the hours over the threshold\<close>

lemma impact_loop_sum:
  assumes "float_round h = h"
  shows "fst (impact_loop db qs (h, r)) =
     foldl (\<lambda>total ord.
              float_add total
                (max 0 (float_sub
                          (case (started_at ord, completed_at ord) of
                             (Some s, Some c) \<Rightarrow>
                               float_truediv (float_truediv (of_int (c - s)) 1000000) 3600
                           | _ \<Rightarrow> 0) 9))) h qs"
  using assms
proof (induction qs arbitrary: h r)
  case Nil
  then show ?case by simp
next
  case (Cons ord qs)
  let ?hours = "case (started_at ord, completed_at ord) of
                  (Some s, Some c) \<Rightarrow>
                    float_truediv (float_truediv (of_int (c - s)) 1000000) 3600
                | _ \<Rightarrow> 0"
  let ?next = "float_add h (max 0 (float_sub ?hours 9))"
  have keep: "float_add h 0 = h" using Cons.prems by (simp add: float_add_def)
  have step: "(case duration_hours ord of
                 Some duration \<Rightarrow> (if duration > 9 then float_add h (float_sub duration 9) else h)
               | None \<Rightarrow> h) = ?next"
  proof (cases "duration_hours ord")
    case None
    then have "?hours = 0"
      by (auto simp: duration_hours_def split: option.splits)
    moreover have "float_sub 0 9 \<le> 0"
      unfolding float_sub_def by (rule float_round_nonpos) simp
    ultimately show ?thesis using None keep by (simp add: max_def)
  next
    case (Some d)
    then have hours: "?hours = d"
      by (auto simp: duration_hours_def hours_between_def split: option.splits)
    show ?thesis
    proof (cases "d > 9")
      case True
      then have "0 \<le> float_sub d 9"
        unfolding float_sub_def by (intro float_round_nonneg) simp
      with True Some hours show ?thesis by (simp add: max_def)
    next
      case False
      then have "float_sub d 9 \<le> 0"
        unfolding float_sub_def by (intro float_round_nonpos) simp
      with False Some hours keep show ?thesis by (simp add: max_def)
    qed
  qed
  have "float_round ?next = ?next" by (simp add: float_add_def float_round_idem)
  from Cons.IH [OF this] step show ?case by (simp add: Let_def)
qed

lemma eleven_hours: "float_truediv (float_truediv 39600000000 1000000) 3600 = 11"
  by code_simp

lemma five_hours: "float_truediv (float_truediv 18000000000 1000000) 3600 = 5"
  by code_simp

lemma two_hours: "float_sub 11 9 = 2"
  by code_simp

text \<open>
  C4. The variable \<^verbatim>\<open>total_delayed_hours\<close> of the impact analysis is the float sum, taken
  from 0 in the order of the queryset, of \<^verbatim>\<open>max(0, hours - 9)\<close> over the delayed orders
  of the caller's scope and of the period that have both timestamps, where \<^verbatim>\<open>hours\<close> is
  \<^verbatim>\<open>(completed_at - started_at).total_seconds() / 3600\<close>; an order with timestamps 11
  hours apart adds 2 to it, an order with timestamps 5 hours apart leaves it as it is;
  and the response carries the sum rounded to one decimal.
\<close>

theorem impact_total_delayed_hours_sum:
  "impact_total_delayed_hours db now user_branch req
     = foldl (\<lambda>total ord.
                float_add total
                  (max 0 (float_sub
                            (case (started_at ord, completed_at ord) of
                               (Some s, Some c) \<Rightarrow>
                                 float_truediv (float_truediv (of_int (c - s)) 1000000) 3600
                             | _ \<Rightarrow> 0) 9)))
         0
         (filter (\<lambda>ord. in_delayed_view db user_branch (req_start_date now req) [] None [] ord
                        \<and> started_at ord \<noteq> None \<and> completed_at ord \<noteq> None) (orders db))
   \<and> fst (impact_loop db [ord\<lparr>started_at := Some s, completed_at := Some (s + 11 * 3600000000)\<rparr>]
            (h, r)) = float_add h 2
   \<and> fst (impact_loop db [ord\<lparr>started_at := Some s, completed_at := Some (s + 5 * 3600000000)\<rparr>]
            (h, r)) = h
   \<and> im_total_delayed_hours (ir_impact (api_delay_impact_analysis db now user_branch req))
       = py_round (impact_total_delayed_hours db now user_branch req) 1"
proof (intro conjI)
  have "float_round 0 = 0" by (simp add: float_round_def)
  then show "impact_total_delayed_hours db now user_branch req
     = foldl (\<lambda>total ord.
                float_add total
                  (max 0 (float_sub
                            (case (started_at ord, completed_at ord) of
                               (Some s, Some c) \<Rightarrow>
                                 float_truediv (float_truediv (of_int (c - s)) 1000000) 3600
                             | _ \<Rightarrow> 0) 9)))
         0
         (filter (\<lambda>ord. in_delayed_view db user_branch (req_start_date now req) [] None [] ord
                        \<and> started_at ord \<noteq> None \<and> completed_at ord \<noteq> None) (orders db))"
    by (simp add: impact_total_delayed_hours_def impact_orders_with_times_def
        impact_orders_qs_def delayed_orders_in_period_view impact_loop_sum)
  show "fst (impact_loop db [ord\<lparr>started_at := Some s, completed_at := Some (s + 11 * 3600000000)\<rparr>]
            (h, r)) = float_add h 2"
    by (simp add: Let_def duration_hours_def hours_between_def eleven_hours two_hours)
  show "fst (impact_loop db [ord\<lparr>started_at := Some s, completed_at := Some (s + 5 * 3600000000)\<rparr>]
            (h, r)) = h"
    by (simp add: Let_def duration_hours_def hours_between_def five_hours)
  show "im_total_delayed_hours (ir_impact (api_delay_impact_analysis db now user_branch req))
       = py_round (impact_total_delayed_hours db now user_branch req) 1"
    by (simp add: api_delay_impact_analysis_def Let_def)
qed

theorem impact_total_delayed_hours_sum_witness:
  "impact_total_delayed_hours two_durations_db 0 None no_params = 2
   \<and> impact_total_delayed_hours nine_twenty_one_db 0 None no_params
       = 197032483697459 / 562949953421312
   \<and> im_total_delayed_hours (ir_impact (api_delay_impact_analysis nine_twenty_one_db 0 None
                                           no_params))
       = float_round (3 / 10)"
proof -
  have two: "impact_total_delayed_hours two_durations_db 0 None no_params = 2"
    by code_simp
  have total: "impact_total_delayed_hours nine_twenty_one_db 0 None no_params
       = 197032483697459 / 562949953421312"
    by code_simp
  have rounded: "py_round (197032483697459 / 562949953421312) 1 = float_round (3 / 10)"
    by code_simp
  have response: "im_total_delayed_hours (ir_impact (api_delay_impact_analysis nine_twenty_one_db 0
                                                       None no_params))
          = py_round (impact_total_delayed_hours nine_twenty_one_db 0 None no_params) 1"
    using impact_total_delayed_hours_sum [of nine_twenty_one_db 0 None no_params] by blast
  have "im_total_delayed_hours (ir_impact (api_delay_impact_analysis nine_twenty_one_db 0 None
                                             no_params))
          = float_round (3 / 10)"
    unfolding response total rounded by (rule refl)
  with two total show ?thesis by (intro conjI)
qed

subsection \<open>Breakdown by category\<close>

text \<open>Rows of the category table are told apart by their identifier, the primary key;
  this is the one assumption on the tables.\<close>

lemma find_by_key_distinct:
  "distinct (map f xs) \<Longrightarrow> x \<in> set xs \<Longrightarrow> find (\<lambda>y. f y = f x) xs = Some x"
  by (induction xs) (auto simp: image_iff)

lemma order_category_Some:
  "order_category db ord = Some c \<Longrightarrow>
     c \<in> set (delay_reason_categories db) \<and> order_category_id db ord = Some (category_id c)"
  by (auto simp: order_category_def find_Some_iff in_set_conv_nth split: option.splits)

lemma order_category_of_id:
  "distinct (map category_id (delay_reason_categories db)) \<Longrightarrow>
   c \<in> set (delay_reason_categories db) \<Longrightarrow>
   order_category_id db ord = Some (category_id c) \<Longrightarrow> order_category db ord = Some c"
  by (simp add: order_category_def find_by_key_distinct)

lemma order_category_id_delayed:
  "order_category_id db ord = Some cid \<Longrightarrow> delay_reason ord \<noteq> None"
  by (auto simp: order_category_id_def order_reason_def split: option.splits)

lemma order_in_category_orders:
  "ord \<in> set (orders db) \<Longrightarrow> order_category_id db ord = Some (category_id c) \<Longrightarrow>
     ord \<in> set (category_orders db c)"
  by (auto simp: order_category_id_def order_reason_def category_orders_def find_Some_iff
      in_set_conv_nth split: option.splits)

lemma breakdown_orders_count_iff:
  "ord \<in> set (breakdown_orders_count db ub sd su st c) \<longleftrightarrow>
     ord \<in> set (orders db) \<and> order_category_id db ord = Some (category_id c)
     \<and> delay_reason_reported_at ord \<noteq> None
     \<and> (\<forall>b. ub = Some b \<longrightarrow> branch ord = Some b)
     \<and> (\<forall>s. sd = Some s \<longrightarrow> reported_gte s ord)
     \<and> (\<forall>x. su = Some x \<longrightarrow> delay_reason_reported_by ord = Some x)
     \<and> (st \<noteq> [] \<longrightarrow> order_type ord = st)"
  by (auto simp: breakdown_orders_count_def filter_branch_conv filter_reported_since_conv
      filter_user_conv filter_order_type_conv)

lemma breakdown_categories_qs_conv:
  "breakdown_categories_qs db ub sd sc su st =
     filter (\<lambda>c. list_ex (\<lambda>ord. delay_reason_reported_at ord \<noteq> None) (category_orders db c)
               \<and> (\<forall>b. ub = Some b \<longrightarrow> list_ex (\<lambda>ord. branch ord = Some b) (category_orders db c))
               \<and> (\<forall>s. sd = Some s \<longrightarrow> list_ex (reported_gte s) (category_orders db c))
               \<and> (sc \<noteq> [] \<longrightarrow> category_code c = sc)
               \<and> (\<forall>x. su = Some x \<longrightarrow> list_ex (\<lambda>ord. delay_reason_reported_by ord = Some x)
                                          (category_orders db c))
               \<and> (st \<noteq> [] \<longrightarrow> list_ex (\<lambda>ord. order_type ord = st) (category_orders db c)))
       (delay_reason_categories db)"
  by (cases ub; cases sd; cases su)
     (auto simp: breakdown_categories_qs_def Let_def intro!: filter_cong)

lemma breakdown_loop_sum:
  "sum_list (map (\<lambda>item. snd (snd item)) (breakdown_loop db ub sd su st cs))
     = sum_list (map (\<lambda>c. length (remdups (breakdown_orders_count db ub sd su st c))) cs)"
  by (induction cs) (simp_all add: Let_def)

lemma breakdown_loop_positive:
  "item \<in> set (breakdown_loop db ub sd su st cs) \<Longrightarrow> 0 < snd (snd item)"
  by (induction cs) (auto simp: Let_def split: if_splits)

lemma sum_list_insort_key:
  "sum_list (map f (insort_key g x xs)) = f x + sum_list (map f xs)"
  for f :: "'a \<Rightarrow> nat"
  by (induction xs) simp_all

lemma sum_list_sort_key:
  "sum_list (map f (sort_key g xs)) = sum_list (map f xs)"
  for f :: "'a \<Rightarrow> nat"
  by (induction xs) (simp_all add: sum_list_insort_key)

lemma sum_card_disjoint:
  assumes "distinct (map category_id cs)"
  shows "sum_list (map (\<lambda>c. card (set (breakdown_orders_count db ub sd su st c))) cs)
           = card (\<Union>c \<in> set cs. set (breakdown_orders_count db ub sd su st c))"
  using assms
proof (induction cs)
  case Nil
  then show ?case by simp
next
  case (Cons c cs)
  let ?A = "\<lambda>c. set (breakdown_orders_count db ub sd su st c)"
  have disj: "?A c \<inter> (\<Union>c' \<in> set cs. ?A c') = {}"
  proof -
    have "ord \<in> ?A c \<Longrightarrow> c' \<in> set cs \<Longrightarrow> ord \<in> ?A c' \<Longrightarrow> False" for ord c'
    proof -
      assume a: "ord \<in> ?A c" and b: "c' \<in> set cs" and d: "ord \<in> ?A c'"
      from a d have "category_id c = category_id c'"
        by (simp add: breakdown_orders_count_iff)
      with b Cons.prems show False by (auto simp: image_iff)
    qed
    then show ?thesis by blast
  qed
  have "card (?A c \<union> (\<Union>c' \<in> set cs. ?A c')) = card (?A c) + card (\<Union>c' \<in> set cs. ?A c')"
    using disj by (intro card_Un_disjoint) auto
  with Cons show ?case by simp
qed

lemma breakdown_union_subset:
  assumes dist: "distinct (map category_id (delay_reason_categories db))"
  shows "(\<Union>c \<in> set (breakdown_categories_qs db ub sd sc su st).
            set (breakdown_orders_count db ub sd su st c))
           \<subseteq> set (filter (in_delayed_view db ub sd sc su st) (orders db))"
proof
  fix ord
  assume "ord \<in> (\<Union>c \<in> set (breakdown_categories_qs db ub sd sc su st).
            set (breakdown_orders_count db ub sd su st c))"
  then obtain c where c: "c \<in> set (breakdown_categories_qs db ub sd sc su st)"
    and ord: "ord \<in> set (breakdown_orders_count db ub sd su st c)" by blast
  from c have c_in: "c \<in> set (delay_reason_categories db)"
    and c_code: "sc \<noteq> [] \<longrightarrow> category_code c = sc"
    by (simp_all add: breakdown_categories_qs_conv)
  from ord have cid: "order_category_id db ord = Some (category_id c)"
    by (simp add: breakdown_orders_count_iff)
  have "order_category db ord = Some c"
    using dist c_in cid by (rule order_category_of_id)
  then have code: "order_category_code db ord = Some (category_code c)"
    by (simp add: order_category_code_def)
  have "delayed ord"
    using ord order_category_id_delayed [OF cid]
    by (simp add: delayed_def breakdown_orders_count_iff)
  with ord code c_code
  show "ord \<in> set (filter (in_delayed_view db ub sd sc su st) (orders db))"
    by (simp add: in_delayed_view_iff breakdown_orders_count_iff)
qed

lemma breakdown_union_superset:
  assumes cat: "\<forall>ord \<in> set (orders db).
                  in_delayed_view db ub sd sc su st ord \<longrightarrow> order_category db ord \<noteq> None"
  shows "set (filter (in_delayed_view db ub sd sc su st) (orders db))
           \<subseteq> (\<Union>c \<in> set (breakdown_categories_qs db ub sd sc su st).
                 set (breakdown_orders_count db ub sd su st c))"
proof
  fix ord
  assume v: "ord \<in> set (filter (in_delayed_view db ub sd sc su st) (orders db))"
  with cat obtain c where c: "order_category db ord = Some c" by auto
  then have c_in: "c \<in> set (delay_reason_categories db)"
    and cid: "order_category_id db ord = Some (category_id c)"
    using order_category_Some by blast+
  from v have facts: "ord \<in> set (orders db)" "delay_reason_reported_at ord \<noteq> None"
    "\<forall>b. ub = Some b \<longrightarrow> branch ord = Some b"
    "\<forall>s. sd = Some s \<longrightarrow> reported_gte s ord"
    "sc \<noteq> [] \<longrightarrow> order_category_code db ord = Some sc"
    "\<forall>x. su = Some x \<longrightarrow> delay_reason_reported_by ord = Some x"
    "st \<noteq> [] \<longrightarrow> order_type ord = st"
    by (simp_all add: in_delayed_view_iff delayed_def)
  have member: "ord \<in> set (category_orders db c)"
    using facts(1) cid by (rule order_in_category_orders)
  have code: "sc \<noteq> [] \<longrightarrow> category_code c = sc"
    using facts(5) c by (simp add: order_category_code_def)
  have "c \<in> set (breakdown_categories_qs db ub sd sc su st)"
    using c_in member facts code
    by (auto simp: breakdown_categories_qs_conv list_ex_iff)
  moreover have "ord \<in> set (breakdown_orders_count db ub sd su st c)"
    using facts cid by (simp add: breakdown_orders_count_iff)
  ultimately show "ord \<in> (\<Union>c \<in> set (breakdown_categories_qs db ub sd sc su st).
                 set (breakdown_orders_count db ub sd su st c))" by blast
qed

lemma breakdown_categories_distinct:
  assumes "distinct (map category_id (delay_reason_categories db))"
  shows "distinct (map category_id (remdups (breakdown_categories_qs db ub sd sc su st)))"
proof -
  have d: "distinct (map category_id (breakdown_categories_qs db ub sd sc su st))"
    using assms by (simp add: breakdown_categories_qs_conv distinct_map_filter)
  then have "distinct (breakdown_categories_qs db ub sd sc su st)"
    by (simp add: distinct_map)
  then show ?thesis using d by (simp add: distinct_remdups_id)
qed

lemma breakdown_counts_sum:
  assumes "distinct (map category_id (delay_reason_categories db))"
  shows "sum_list (map (\<lambda>item. snd (snd item))
            (breakdown_loop db ub sd su st (remdups (breakdown_categories_qs db ub sd sc su st))))
         = card (\<Union>c \<in> set (breakdown_categories_qs db ub sd sc su st).
                  set (breakdown_orders_count db ub sd su st c))"
proof -
  let ?cs = "remdups (breakdown_categories_qs db ub sd sc su st)"
  have "sum_list (map (\<lambda>item. snd (snd item)) (breakdown_loop db ub sd su st ?cs))
          = sum_list (map (\<lambda>c. card (set (breakdown_orders_count db ub sd su st c))) ?cs)"
    by (simp add: breakdown_loop_sum length_remdups_card_conv)
  also have "\<dots> = card (\<Union>c \<in> set ?cs. set (breakdown_orders_count db ub sd su st c))"
    using breakdown_categories_distinct [OF assms] by (rule sum_card_disjoint)
  finally show ?thesis by simp
qed

lemma breakdown_run:
  assumes "\<not> user_rejected db req"
    and "T = sum_list (map (\<lambda>item. snd (snd item)) (breakdown_rows db now ub req))"
  shows "api_delay_reasons_breakdown db now ub req =
           Inr \<lparr>br_data =
                  map (\<lambda>item.
                         \<lparr>ce_category = fst item,
                          ce_category_name = fst (snd item),
                          ce_count = snd (snd item),
                          ce_percentage =
                            (if T > 0
                             then py_round (float_mul (float_truediv
                                    (of_nat (snd (snd item))) (of_nat T)) 100) 1
                             else 0)\<rparr>) (breakdown_rows db now ub req),
                br_total = T\<rparr>"
  unfolding assms(2)
  by (simp add: api_delay_reasons_breakdown_def Let_def reported_by_lookup_accepted [OF assms(1)])

lemma breakdown_rows_sorted:
  "sorted_wrt (\<lambda>a b. b \<le> a) (map (\<lambda>item. snd (snd item)) (breakdown_rows db now ub req))"
proof -
  have "sorted (map (\<lambda>item. - int (snd (snd item))) (sort_key (\<lambda>item. - int (snd (snd item))) rows))"
    for rows :: "(string \<times> string \<times> nat) list"
    by (rule sorted_sort_key)
  then have "sorted_wrt (\<lambda>a b. b \<le> a)
               (map (\<lambda>item. snd (snd item)) (sort_key (\<lambda>item. - int (snd (snd item))) rows))"
    for rows :: "(string \<times> string \<times> nat) list"
    by (simp add: sorted_wrt_map)
  then show ?thesis .
qed

lemma breakdown_rows_positive:
  "n \<in> set (map (\<lambda>item. snd (snd item)) (breakdown_rows db now ub req)) \<Longrightarrow> 0 < n"
  by (auto dest: breakdown_loop_positive)

lemma breakdown_rows_sum:
  assumes "distinct (map category_id (delay_reason_categories db))"
  shows "sum_list (map (\<lambda>item. snd (snd item)) (breakdown_rows db now ub req))
           = card (\<Union>c \<in> set (breakdown_categories_qs db ub (req_start_date now req)
                                  (req_category req) (req_user_id db req) (req_order_type req)).
                     set (breakdown_orders_count db ub (req_start_date now req)
                            (req_user_id db req) (req_order_type req) c))"
  by (simp only: sum_list_sort_key breakdown_counts_sum [OF assms])

text \<open>
  C5 as stated does not hold: the breakdown converts the \<^verbatim>\<open>user\<close> parameter like the
  other views, and with \<^verbatim>\<open>user=abc\<close> it ends with \<^verbatim>\<open>ValueError\<close>, on empty tables
  too, where every delayed order of the view has a category.
\<close>

theorem category_breakdown_rejected_user_counterexample:
  "api_delay_reasons_breakdown (sample_db []) 0 None user_abc = Inl ValueError"
  by code_simp

text \<open>
  C5, amended. With category rows of pairwise different identifiers: when the \<^verbatim>\<open>user\<close>
  parameter is not empty and the integer conversion rejects it, the breakdown ends with
  \<^verbatim>\<open>ValueError\<close>; otherwise it returns a response in which the counts of the entries add
  up to at most the number of distinct delayed orders of the filtered view, and to exactly
  that number when every delayed order of the view has a category; every count is
  positive; the entries are in descending order of count; the percentage of an entry is
  the float \<^verbatim>\<open>count / sum * 100\<close> (each operation rounded to a float) rounded to one
  decimal; and the total of the response is the sum of the counts.
\<close>

theorem category_breakdown_counts:
  assumes "distinct (map category_id (delay_reason_categories db))"
  shows
   "(user_rejected db req \<longrightarrow>
       api_delay_reasons_breakdown db now user_branch req = Inl ValueError)
    \<and> (\<not> user_rejected db req \<longrightarrow>
         (\<exists>r. api_delay_reasons_breakdown db now user_branch req = Inr r
            \<and> sum_list (map ce_count (br_data r))
                \<le> length (remdups (filter (in_delayed_view db user_branch
                                             (req_start_date now req) (req_category req)
                                             (req_user_id db req) (req_order_type req))
                                      (orders db)))
            \<and> ((\<forall>ord \<in> set (orders db).
                    in_delayed_view db user_branch (req_start_date now req) (req_category req)
                      (req_user_id db req) (req_order_type req) ord
                    \<longrightarrow> order_category db ord \<noteq> None)
                \<longrightarrow> sum_list (map ce_count (br_data r))
                    = length (remdups (filter (in_delayed_view db user_branch
                                                 (req_start_date now req) (req_category req)
                                                 (req_user_id db req) (req_order_type req))
                                          (orders db))))
            \<and> sorted_wrt (\<lambda>a b. b \<le> a) (map ce_count (br_data r))
            \<and> (\<forall>e \<in> set (br_data r).
                  0 < ce_count e
                  \<and> ce_percentage e
                      = py_round (float_mul (float_truediv (of_nat (ce_count e))
                                   (of_nat (sum_list (map ce_count (br_data r))))) 100) 1)
            \<and> br_total r = sum_list (map ce_count (br_data r))))"
proof (intro conjI impI)
  assume "user_rejected db req"
  then show "api_delay_reasons_breakdown db now user_branch req = Inl ValueError"
    by (simp add: api_delay_reasons_breakdown_def Let_def reported_by_lookup_rejected)
next
  assume ok: "\<not> user_rejected db req"
  let ?sd = "req_start_date now req"
  let ?sc = "req_category req"
  let ?su = "req_user_id db req"
  let ?st = "req_order_type req"
  let ?view = "filter (in_delayed_view db user_branch ?sd ?sc ?su ?st) (orders db)"
  let ?U = "\<Union>c \<in> set (breakdown_categories_qs db user_branch ?sd ?sc ?su ?st).
              set (breakdown_orders_count db user_branch ?sd ?su ?st c)"
  define T where "T = sum_list (map (\<lambda>item. snd (snd item))
                                  (breakdown_rows db now user_branch req))"
  define r where
    "r = \<lparr>br_data =
            map (\<lambda>item.
                   \<lparr>ce_category = fst item,
                    ce_category_name = fst (snd item),
                    ce_count = snd (snd item),
                    ce_percentage =
                      (if T > 0
                       then py_round (float_mul (float_truediv
                              (of_nat (snd (snd item))) (of_nat T)) 100) 1
                       else 0)\<rparr>) (breakdown_rows db now user_branch req),
          br_total = T\<rparr>"
  have run: "api_delay_reasons_breakdown db now user_branch req = Inr r"
    unfolding r_def using ok T_def by (rule breakdown_run)
  have counts: "map ce_count (br_data r)
                  = map (\<lambda>item. snd (snd item)) (breakdown_rows db now user_branch req)"
    by (simp add: r_def comp_def)
  have T: "T = sum_list (map ce_count (br_data r))"
    by (simp only: counts T_def)
  have total: "br_total r = sum_list (map ce_count (br_data r))"
    unfolding T [symmetric] by (simp add: r_def)
  have pct: "ce_percentage e
               = (if T > 0
                  then py_round (float_mul (float_truediv (of_nat (ce_count e)) (of_nat T)) 100) 1
                  else 0)"
    if "e \<in> set (br_data r)" for e
    using that by (auto simp: r_def)
  let ?sum = "sum_list (map ce_count (br_data r))"
  have sum: "?sum = card ?U"
    by (simp only: counts breakdown_rows_sum [OF assms])
  have sub: "?U \<subseteq> set ?view"
    using assms by (rule breakdown_union_subset)
  have "card ?U \<le> card (set ?view)"
    by (rule card_mono [OF _ sub]) simp
  then have le: "?sum \<le> length (remdups ?view)"
    by (simp only: sum length_remdups_card_conv)
  have eq: "?sum = length (remdups ?view)"
    if cat: "\<forall>ord \<in> set (orders db).
               in_delayed_view db user_branch ?sd ?sc ?su ?st ord
               \<longrightarrow> order_category db ord \<noteq> None"
  proof -
    have "set ?view \<subseteq> ?U" using cat by (rule breakdown_union_superset)
    with sub have "?U = set ?view" by (rule equalityI)
    then show ?thesis by (simp only: sum length_remdups_card_conv)
  qed
  have sorted: "sorted_wrt (\<lambda>a b. b \<le> a) (map ce_count (br_data r))"
    by (simp only: counts breakdown_rows_sorted)
  have entry: "0 < ce_count e
               \<and> ce_percentage e
                   = py_round (float_mul (float_truediv (of_nat (ce_count e)) (of_nat ?sum)) 100) 1"
    if e: "e \<in> set (br_data r)" for e
  proof -
    from e have mem: "ce_count e \<in> set (map ce_count (br_data r))" by simp
    then have pos: "0 < ce_count e"
      by (simp only: counts) (rule breakdown_rows_positive)
    from mem have "ce_count e \<le> ?sum"
      by (intro member_le_sum_list) simp_all
    with pos have "0 < T" unfolding T by simp
    with pct [OF e] have "ce_percentage e
        = py_round (float_mul (float_truediv (of_nat (ce_count e)) (of_nat T)) 100) 1"
      by simp
    with pos show ?thesis unfolding T by (intro conjI)
  qed
  show "\<exists>r. api_delay_reasons_breakdown db now user_branch req = Inr r
            \<and> sum_list (map ce_count (br_data r)) \<le> length (remdups ?view)
            \<and> ((\<forall>ord \<in> set (orders db).
                    in_delayed_view db user_branch ?sd ?sc ?su ?st ord
                    \<longrightarrow> order_category db ord \<noteq> None)
                \<longrightarrow> sum_list (map ce_count (br_data r)) = length (remdups ?view))
            \<and> sorted_wrt (\<lambda>a b. b \<le> a) (map ce_count (br_data r))
            \<and> (\<forall>e \<in> set (br_data r).
                  0 < ce_count e
                  \<and> ce_percentage e
                      = py_round (float_mul (float_truediv (of_nat (ce_count e))
                                   (of_nat (sum_list (map ce_count (br_data r))))) 100) 1)
            \<and> br_total r = sum_list (map ce_count (br_data r))"
  proof (intro exI [of _ r] conjI impI ballI)
    show "api_delay_reasons_breakdown db now user_branch req = Inr r" by (rule run)
    show "?sum \<le> length (remdups ?view)" by (rule le)
    show "?sum = length (remdups ?view)"
      if "\<forall>ord \<in> set (orders db).
            in_delayed_view db user_branch ?sd ?sc ?su ?st ord \<longrightarrow> order_category db ord \<noteq> None"
      using that by (rule eq)
    show "sorted_wrt (\<lambda>a b. b \<le> a) (map ce_count (br_data r))" by (rule sorted)
    show "0 < ce_count e" if "e \<in> set (br_data r)" for e using entry [OF that] by (rule conjunct1)
    show "ce_percentage e
            = py_round (float_mul (float_truediv (of_nat (ce_count e)) (of_nat ?sum)) 100) 1"
      if "e \<in> set (br_data r)" for e using entry [OF that] by (rule conjunct2)
    show "br_total r = ?sum" by (rule total)
  qed
qed

theorem category_breakdown_counts_witness:
  "distinct (map category_id (delay_reason_categories eighty_orders_db))
   \<and> api_delay_reasons_breakdown eighty_orders_db 0 None no_params
       = Inr \<lparr>br_data =
                [\<lparr>ce_category = ''logistics'', ce_category_name = ''Logistics'',
                  ce_count = 57, ce_percentage = float_round (712 / 10)\<rparr>,
                 \<lparr>ce_category = ''mechanical'', ce_category_name = ''Mechanical'',
                  ce_count = 23, ce_percentage = float_round (287 / 10)\<rparr>],
              br_total = 80\<rparr>
   \<and> length (remdups (filter (in_delayed_view eighty_orders_db None
                                (req_start_date 0 no_params) (req_category no_params)
                                (req_user_id eighty_orders_db no_params)
                                (req_order_type no_params))
                         (orders eighty_orders_db))) = 80"
proof -
  let ?view = "in_delayed_view eighty_orders_db None (req_start_date 0 no_params)
                 (req_category no_params) (req_user_id eighty_orders_db no_params)
                 (req_order_type no_params)"
  have keys: "distinct (map category_id (delay_reason_categories eighty_orders_db))"
    by code_simp
  have accepted: "\<not> user_rejected eighty_orders_db no_params"
    by code_simp
  have rows: "breakdown_rows eighty_orders_db 0 None no_params
                = [(''logistics'', ''Logistics'', 57), (''mechanical'', ''Mechanical'', 23)]"
    by code_simp
  have logistics: "py_round (float_mul (float_truediv 57 80) 100) 1 = float_round (712 / 10)"
    by code_simp
  have mechanical: "py_round (float_mul (float_truediv 23 80) 100) 1 = float_round (287 / 10)"
    by code_simp
  have run: "api_delay_reasons_breakdown eighty_orders_db 0 None no_params
       = Inr \<lparr>br_data =
                [\<lparr>ce_category = ''logistics'', ce_category_name = ''Logistics'',
                  ce_count = 57, ce_percentage = float_round (712 / 10)\<rparr>,
                 \<lparr>ce_category = ''mechanical'', ce_category_name = ''Mechanical'',
                  ce_count = 23, ce_percentage = float_round (287 / 10)\<rparr>],
              br_total = 80\<rparr>"
  proof -
    have total: "(80 :: nat) = sum_list (map (\<lambda>item. snd (snd item))
                                        (breakdown_rows eighty_orders_db 0 None no_params))"
      unfolding rows by simp
    show ?thesis
      unfolding breakdown_run [where T = 80 and db = eighty_orders_db and now = 0 and ub = None
                                 and req = no_params, OF accepted total] rows
      by (simp add: logistics [simplified] mechanical [simplified])
  qed
  have "list_all (\<lambda>ord. ?view ord \<longrightarrow> order_category eighty_orders_db ord \<noteq> None)
          (orders eighty_orders_db)"
    by code_simp
  then have categorised: "\<forall>ord \<in> set (orders eighty_orders_db).
                            ?view ord \<longrightarrow> order_category eighty_orders_db ord \<noteq> None"
    by (simp only: list_all_iff)
  from category_breakdown_counts
         [where db = eighty_orders_db and now = 0 and user_branch = None and req = no_params,
          OF keys]
       accepted categorised
  obtain r where r: "api_delay_reasons_breakdown eighty_orders_db 0 None no_params = Inr r"
    and sum: "sum_list (map ce_count (br_data r))
                = length (remdups (filter ?view (orders eighty_orders_db)))"
    by blast
  from r run have "sum_list (map ce_count (br_data r)) = 80" by auto
  with sum have "length (remdups (filter ?view (orders eighty_orders_db))) = 80" by simp
  with keys run show ?thesis by (intro conjI)
qed

subsection \<open>Period conversion\<close>

text \<open>
  C3. The period conversion returns the current time minus 7, 30, 90, 180 and 365 days for
  \<^verbatim>\<open>7days\<close>, \<^verbatim>\<open>30days\<close>, \<^verbatim>\<open>90days\<close>, \<^verbatim>\<open>6months\<close> and \<^verbatim>\<open>1year\<close>, returns
  \<open>None\<close> for \<^verbatim>\<open>all\<close>, and for every other string returns what it returns for
  \<^verbatim>\<open>30days\<close>; it has no error path.
\<close>

theorem period_conversion:
  "get_start_date_from_period now ''7days'' = Some (now - 7 * 86400000000)
   \<and> get_start_date_from_period now ''30days'' = Some (now - 30 * 86400000000)
   \<and> get_start_date_from_period now ''90days'' = Some (now - 90 * 86400000000)
   \<and> get_start_date_from_period now ''6months'' = Some (now - 180 * 86400000000)
   \<and> get_start_date_from_period now ''1year'' = Some (now - 365 * 86400000000)
   \<and> get_start_date_from_period now ''all'' = None
   \<and> (p \<notin> {''7days'', ''30days'', ''90days'', ''6months'', ''1year'', ''all''}
        \<longrightarrow> get_start_date_from_period now p = get_start_date_from_period now ''30days'')"
  by (simp add: get_start_date_from_period_def period_map_def timedelta_days_def)

theorem period_conversion_witness:
  "''foo'' \<notin> {''7days'', ''30days'', ''90days'', ''6months'', ''1year'', ''all''}
   \<and> get_start_date_from_period 0 ''foo'' = get_start_date_from_period 0 ''30days''
   \<and> get_start_date_from_period 0 ''foo'' = Some (- 2592000000000)"
  using period_conversion [of 0 "''foo''"] by simp

subsection \<open>Recommendations: the filters they ignore\<close>

text \<open>
  C9. Two requests with the same period, for the same caller, time and tables, get the
  same recommendations, whatever their \<^verbatim>\<open>category\<close>, \<^verbatim>\<open>user\<close> and \<^verbatim>\<open>order_type\<close>
  parameters are.
\<close>

theorem recommendations_ignore_other_filters:
  "get_period r1 = get_period r2 \<Longrightarrow>
     api_delay_recommendations db now user_branch r1
       = api_delay_recommendations db now user_branch r2"
  by (simp add: api_delay_recommendations_def emitted_recommendations_def
        recommendations_orders_qs_def)

theorem recommendations_ignore_other_filters_witness:
  "get_period no_params
     = get_period \<lparr>get_period = None, get_category = Some ''logistics'', get_user = Some ''abc'',
                   get_order_type = Some ''sales''\<rparr>
   \<and> api_delay_recommendations (sample_db [delayed_order 1 1 0, delayed_order 2 2 0]) 0 None
         no_params
       = api_delay_recommendations (sample_db [delayed_order 1 1 0, delayed_order 2 2 0]) 0 None
           \<lparr>get_period = None, get_category = Some ''logistics'', get_user = Some ''abc'',
            get_order_type = Some ''sales''\<rparr>"
proof -
  have same: "get_period no_params
                = get_period \<lparr>get_period = None, get_category = Some ''logistics'',
                              get_user = Some ''abc'', get_order_type = Some ''sales''\<rparr>"
    by (simp add: no_params_def)
  show ?thesis
    using same recommendations_ignore_other_filters [OF same] by simp
qed

end
